theory Spec2Isabelle
  imports Main "HOL-Library.AList"
begin

section \<open>Python strings\<close>

text \<open>
  Strings are lists of characters, and a character is a code point below 256 (Latin-1).
  On these the tables follow \<^verbatim>\<open>str.strip\<close>, \<^verbatim>\<open>str.lower\<close>, \<^verbatim>\<open>str.upper\<close>,
  \<^verbatim>\<open>str.capitalize\<close>, \<^verbatim>\<open>str.isdigit\<close>, \<^verbatim>\<open>str.replace\<close> and \<^verbatim>\<open>int\<close> of CPython 3.11.
  Two letters have a capital beyond code point 255 (\<^verbatim>\<open>U+00B5\<close> and \<^verbatim>\<open>U+00FF\<close>); a string
  cannot hold it here, and \<open>upper_chars\<close> leaves these two letters as they are.
\<close>

text \<open>The exceptions that the modelled code raises.\<close>

datatype pyerr = KeyError | ValueError | TypeError | AttributeError | IndexError | OverflowError

definition is_space :: "char \<Rightarrow> bool" where
  "is_space c = (c \<in> set [CHR 0x09, CHR 0x0A, CHR 0x0B, CHR 0x0C, CHR 0x0D,
                            CHR 0x1C, CHR 0x1D, CHR 0x1E, CHR 0x1F, CHR 0x20,
                            CHR 0x85, CHR 0xA0])"

definition py_strip :: "string \<Rightarrow> string" where
  "py_strip s = rev (dropWhile is_space (rev (dropWhile is_space s)))"

text \<open>The capital letters and, at the same position, their small letters.\<close>

definition capital_letters :: string where
  "capital_letters = ''ABCDEFGHIJKLMNOPQRSTUVWXYZ'' @
     [CHR 0xC0, CHR 0xC1, CHR 0xC2, CHR 0xC3, CHR 0xC4, CHR 0xC5, CHR 0xC6,
      CHR 0xC7, CHR 0xC8, CHR 0xC9, CHR 0xCA, CHR 0xCB, CHR 0xCC, CHR 0xCD,
      CHR 0xCE, CHR 0xCF, CHR 0xD0, CHR 0xD1, CHR 0xD2, CHR 0xD3, CHR 0xD4,
      CHR 0xD5, CHR 0xD6, CHR 0xD8, CHR 0xD9, CHR 0xDA, CHR 0xDB, CHR 0xDC,
      CHR 0xDD, CHR 0xDE]"

definition small_letters :: string where
  "small_letters = ''abcdefghijklmnopqrstuvwxyz'' @
     [CHR 0xE0, CHR 0xE1, CHR 0xE2, CHR 0xE3, CHR 0xE4, CHR 0xE5, CHR 0xE6,
      CHR 0xE7, CHR 0xE8, CHR 0xE9, CHR 0xEA, CHR 0xEB, CHR 0xEC, CHR 0xED,
      CHR 0xEE, CHR 0xEF, CHR 0xF0, CHR 0xF1, CHR 0xF2, CHR 0xF3, CHR 0xF4,
      CHR 0xF5, CHR 0xF6, CHR 0xF8, CHR 0xF9, CHR 0xFA, CHR 0xFB, CHR 0xFC,
      CHR 0xFD, CHR 0xFE]"

definition lower_char :: "char \<Rightarrow> char" where
  "lower_char c =
     (case map_of (zip capital_letters small_letters) c of None \<Rightarrow> c | Some d \<Rightarrow> d)"

definition upper_char :: "char \<Rightarrow> char" where
  "upper_char c =
     (case map_of (zip small_letters capital_letters) c of None \<Rightarrow> c | Some d \<Rightarrow> d)"

text \<open>The capital of the sharp s (\<^verbatim>\<open>U+00DF\<close>) is two letters.\<close>

definition upper_chars :: "char \<Rightarrow> string" where
  "upper_chars c = (if c = CHR 0xDF then ''SS'' else [upper_char c])"

definition py_lower :: "string \<Rightarrow> string" where
  "py_lower s = map lower_char s"

definition py_upper :: "string \<Rightarrow> string" where
  "py_upper s = concat (map upper_chars s)"

definition digit_val :: "char \<Rightarrow> int option" where
  "digit_val c = map_of (zip ''0123456789'' [0, 1, 2, 3, 4, 5, 6, 7, 8, 9]) c"

text \<open>The decimal digits, and the characters \<^verbatim>\<open>str.isdigit\<close> accepts: the decimal digits
  and the superscripts two, three and one.\<close>

definition is_digit :: "char \<Rightarrow> bool" where
  "is_digit c = (digit_val c \<noteq> None)"

definition isdigit_char :: "char \<Rightarrow> bool" where
  "isdigit_char c = (is_digit c \<or> c \<in> set [CHR 0xB2, CHR 0xB3, CHR 0xB9])"

definition py_isdigit :: "string \<Rightarrow> bool" where
  "py_isdigit s = (s \<noteq> [] \<and> list_all isdigit_char s)"

text \<open>The number a string of decimal digits denotes.\<close>

definition decimal_value :: "string \<Rightarrow> int" where
  "decimal_value s =
     foldl (\<lambda>acc c. acc * 10 + (case digit_val c of None \<Rightarrow> 0 | Some d \<Rightarrow> d)) 0 s"

text \<open>
  CPython converts between \<^verbatim>\<open>int\<close> and decimal text only up to
  \<^verbatim>\<open>sys.int_info.default_max_str_digits\<close> digits and raises \<^verbatim>\<open>ValueError\<close> beyond; the
  source does not change the limit.
\<close>

definition max_str_digits :: nat where
  "max_str_digits = 4300"

text \<open>\<^verbatim>\<open>int(s)\<close> for a string that \<^verbatim>\<open>str.isdigit\<close> accepts (the only use the agent makes
  of it): a superscript is no decimal digit, and leading zeros count towards the limit.\<close>

definition py_int :: "string \<Rightarrow> pyerr + int" where
  "py_int s =
     (if s = [] \<or> \<not> list_all is_digit s \<or> max_str_digits < length s then Inl ValueError
      else Inr (decimal_value s))"

text \<open>The number of digits of the decimal text of a natural number, and whether
  \<^verbatim>\<open>str(n)\<close> raises for an integer (the sign does not count).\<close>

fun decimal_digits :: "nat \<Rightarrow> nat" where
  "decimal_digits n = (if n < 10 then 1 else Suc (decimal_digits (n div 10)))"

declare decimal_digits.simps [simp del]

definition str_int_fails :: "int \<Rightarrow> bool" where
  "str_int_fails n = (max_str_digits < decimal_digits (nat \<bar>n\<bar>))"

definition py_replace :: "char \<Rightarrow> char \<Rightarrow> string \<Rightarrow> string" where
  "py_replace a b s = map (\<lambda>c. if c = a then b else c) s"

text \<open>\<^verbatim>\<open>s.split(sep)\<close> for a one-character separator.\<close>

fun py_split :: "char \<Rightarrow> string \<Rightarrow> string list" where
  "py_split sep [] = [[]]"
| "py_split sep (c # cs) =
     (if c = sep then [] # py_split sep cs
      else (case py_split sep cs of [] \<Rightarrow> [[c]] | w # ws \<Rightarrow> (c # w) # ws))"

section \<open>Payload values\<close>

text \<open>
  A payload is a Python \<^verbatim>\<open>dict\<close> of JSON values. A dict is an association list in
  insertion order, read with \<^const>\<open>map_of\<close> and written with \<^const>\<open>AList.update\<close>,
  which keeps the position of an existing key and appends a new one, as Python does.
  The template holds no float and an answer is stored as a \<^verbatim>\<open>str\<close>, a \<^verbatim>\<open>bool\<close>
  or an \<^verbatim>\<open>int\<close>, so payload values have no float constructor.
\<close>

datatype json =
    JNull
  | JBool bool
  | JInt int
  | JStr string
  | JList "json list"
  | JDict "(string \<times> json) list"

type_synonym dict = "(string \<times> json) list"


text \<open>Python truthiness (\<^verbatim>\<open>if v:\<close>).\<close>

fun truthy :: "json \<Rightarrow> bool" where
  "truthy JNull = False"
| "truthy (JBool b) = b"
| "truthy (JInt n) = (n \<noteq> 0)"
| "truthy (JStr s) = (s \<noteq> [])"
| "truthy (JList xs) = (xs \<noteq> [])"
| "truthy (JDict d) = (d \<noteq> [])"

section \<open>The dpath library on literal paths\<close>

text \<open>
  \<^verbatim>\<open>dpath.get\<close> and \<^verbatim>\<open>dpath.set\<close> belong to an external library. They are modelled
  on paths whose segments are plain names (no glob character, not an integer), which is
  what every key of the question map is: the path is split at \<^verbatim>\<open>/\<close> and followed
  through nested dicts; a list or a scalar has no child under such a name. \<^verbatim>\<open>get\<close>
  raises \<^verbatim>\<open>KeyError\<close> when the path does not exist (the result \<open>None\<close> here);
  \<^verbatim>\<open>set\<close> replaces the value at an existing path and changes nothing otherwise.
  The keys of a payload are taken to be non-empty names, as those of the template are
  (the library refuses a document with an empty key unless it is configured to allow it).
\<close>

definition split_path :: "string \<Rightarrow> string list" where
  "split_path glob = py_split CHR ''/'' (dropWhile (\<lambda>c. c = CHR ''/'') glob)"

fun get_segments :: "json \<Rightarrow> string list \<Rightarrow> json option" where
  "get_segments v [] = Some v"
| "get_segments (JDict d) (s # ss) =
     (case map_of d s of None \<Rightarrow> None | Some c \<Rightarrow> get_segments c ss)"
| "get_segments _ (s # ss) = None"

definition dpath_get :: "dict \<Rightarrow> string \<Rightarrow> json option" where
  "dpath_get obj glob = get_segments (JDict obj) (split_path glob)"

fun set_segments :: "json \<Rightarrow> string list \<Rightarrow> json \<Rightarrow> json option" where
  "set_segments old [] v = Some v"
| "set_segments (JDict d) (s # ss) v =
     (case map_of d s of
        None \<Rightarrow> None
      | Some c \<Rightarrow>
          (case set_segments c ss v of
             None \<Rightarrow> None
           | Some c' \<Rightarrow> Some (JDict (AList.update s c' d))))"
| "set_segments _ (s # ss) v = None"

definition dpath_set :: "dict \<Rightarrow> string \<Rightarrow> json \<Rightarrow> dict" where
  "dpath_set obj glob v =
     (case set_segments (JDict obj) (split_path glob) v of
        Some (JDict obj') \<Rightarrow> obj'
      | _ \<Rightarrow> obj)"

section \<open>Payload template and question map\<close>

definition get_payload_template :: dict where
  "get_payload_template =
    [(''_internal'', JDict [(''start_date'', JNull), (''end_date'', JNull)]),
     (''ProductCode'', JStr ''TVP''),
     (''media'', JDict [(''wcc'', JStr ''HLS'')]),
     (''travel'', JDict
        [(''policy_type'', JNull), (''country_code'', JList []), (''number_of_days'', JNull),
         (''zone'', JNull), (''with_children'', JNull), (''with_spouse'', JStr ''no''),
         (''with_group_of_adults'', JNull), (''with_group_of_households'', JStr ''no''),
         (''plan'', JStr ''basic''),
         (''selectedAddOns'', JDict
            [(''preExAddOn'', JDict [(''selected'', JNull), (''preselected'', JBool False)]),
             (''lossFFMAddOn'', JDict [(''selected'', JNull), (''preselected'', JBool False)]),
             (''flightDelayAddOn'', JDict [(''selected'', JNull), (''preselected'', JBool False)])]),
         (''number_of_travellers'', JDict
            [(''total'', JNull), (''child'', JList []), (''adult'', JList []),
             (''group'', JInt 1)])]),
     (''promotion'', JDict [(''coupon_code'', JNull)]),
     (''leads'', JDict [(''email'', JNull), (''contact_mobile'', JNull)]),
     (''CEPParams'', JDict [])]"

definition get_question_map :: "(string \<times> string) list" where
  "get_question_map =
    [(''travel/policy_type'',
        ''To start, what is the policy type? (Enter 'S' for Single Trip or 'A' for Annual)''),
     (''_internal/start_date'', ''What is your travel start date (YYYY-MM-DD)?''),
     (''_internal/end_date'', ''And what is your travel end date (YYYY-MM-DD)?''),
     (''travel/country_code'',
        ''What is the 3-letter country code for your destination (e.g., 'MAL')?''),
     (''travel/number_of_travellers/adult'', ''How many adults are traveling?''),
     (''travel/number_of_travellers/child'', ''How many children are traveling?''),
     (''travel/selectedAddOns/preExAddOn/selected'',
        ''Do you require coverage for pre-existing conditions? (true/false)''),
     (''travel/selectedAddOns/lossFFMAddOn/selected'',
        ''Add coverage for Loss of Frequent Flyer Miles? (true/false)''),
     (''travel/selectedAddOns/flightDelayAddOn/selected'',
        ''Add the Flight Delay benefit? (true/false)''),
     (''leads/email'', ''What is your email address?''),
     (''leads/contact_mobile'', ''What is your 8-digit contact mobile number?''),
     (''promotion/coupon_code'',
        ''Finally, do you have a coupon code? (If not, just say 'no')'')]"

section \<open>Field resolver\<close>

text \<open>
  The loop of \<^verbatim>\<open>find_next_question_key\<close> over the keys of the question map, in
  their order: a \<^verbatim>\<open>KeyError\<close> of \<^verbatim>\<open>dpath_get\<close>, the value \<^verbatim>\<open>None\<close> and the
  value \<^verbatim>\<open>[]\<close> each return the key.
\<close>

fun find_next_loop :: "string list \<Rightarrow> dict \<Rightarrow> string option" where
  "find_next_loop [] payload = None"
| "find_next_loop (key # keys) payload =
     (case dpath_get payload key of
        None \<Rightarrow> Some key
      | Some v \<Rightarrow> if v = JNull \<or> v = JList [] then Some key else find_next_loop keys payload)"

definition find_next_question_key :: "dict \<Rightarrow> string option" where
  "find_next_question_key payload = find_next_loop (map fst get_question_map) payload"


text \<open>
  The resolver in the words of the specification: a field is unanswered when its path is
  missing, or its value is null, or its value is the empty list.
\<close>

definition unanswered :: "dict \<Rightarrow> string \<Rightarrow> bool" where
  "unanswered payload key =
     (dpath_get payload key = None \<or> dpath_get payload key = Some JNull
      \<or> dpath_get payload key = Some (JList []))"

section \<open>Dates\<close>

text \<open>
  \<^verbatim>\<open>datetime.strptime(s, "%Y-%m-%d")\<close> of the standard library: the directive
  \<^verbatim>\<open>%Y\<close> takes four digits, \<^verbatim>\<open>%m\<close> takes \<^verbatim>\<open>1[0-2]|0[1-9]|[1-9]\<close> and
  \<^verbatim>\<open>%d\<close> takes \<^verbatim>\<open>3[0-1]|[1-2]\d|0[1-9]|[1-9]| [1-9]\<close>; the whole string must be
  consumed, the year must be at least 1 and the day must exist in the month. Failure is
  \<^verbatim>\<open>ValueError\<close> (the result \<open>None\<close>). The day number of a date is
  \<^verbatim>\<open>date.toordinal\<close>, and \<^verbatim>\<open>(end - start).days\<close> is the difference of the two.
\<close>

type_synonym date = "int \<times> int \<times> int"

definition is_leap :: "int \<Rightarrow> bool" where
  "is_leap y = (y mod 4 = 0 \<and> (y mod 100 \<noteq> 0 \<or> y mod 400 = 0))"

definition days_in_month :: "int \<Rightarrow> int \<Rightarrow> int" where
  "days_in_month y m =
     (if m = 2 then (if is_leap y then 29 else 28)
      else if m = 4 \<or> m = 6 \<or> m = 9 \<or> m = 11 then 30 else 31)"

definition days_before_year :: "int \<Rightarrow> int" where
  "days_before_year year =
     (let y = year - 1 in y * 365 + y div 4 - y div 100 + y div 400)"

definition days_before_month :: "int \<Rightarrow> int \<Rightarrow> int" where
  "days_before_month y m =
     [0, 31, 59, 90, 120, 151, 181, 212, 243, 273, 304, 334] ! nat (m - 1)
     + (if 2 < m \<and> is_leap y then 1 else 0)"

definition toordinal :: "date \<Rightarrow> int" where
  "toordinal dt =
     (case dt of (y, m, d) \<Rightarrow> days_before_year y + days_before_month y m + d)"

definition month_token :: "string \<Rightarrow> bool" where
  "month_token t =
     ((length t = 1 \<or> length t = 2) \<and> list_all is_digit t \<and> 1 \<le> decimal_value t \<and> decimal_value t \<le> 12)"

definition day_value :: "string \<Rightarrow> int option" where
  "day_value t =
     (case t of
        [c1, c2] \<Rightarrow>
          if c1 = CHR '' '' then
            (if is_digit c2 \<and> 1 \<le> decimal_value [c2] then Some (decimal_value [c2]) else None)
          else if is_digit c1 \<and> is_digit c2 \<and> 1 \<le> decimal_value t \<and> decimal_value t \<le> 31
          then Some (decimal_value t) else None
      | [c] \<Rightarrow> if is_digit c \<and> 1 \<le> decimal_value t then Some (decimal_value t) else None
      | _ \<Rightarrow> None)"

definition strptime_ymd :: "string \<Rightarrow> date option" where
  "strptime_ymd s =
     (case py_split CHR ''-'' s of
        [ys, ms, ds] \<Rightarrow>
          (if length ys = 4 \<and> list_all is_digit ys \<and> month_token ms then
             (case day_value ds of
                None \<Rightarrow> None
              | Some d \<Rightarrow>
                  if 1 \<le> decimal_value ys \<and> d \<le> days_in_month (decimal_value ys) (decimal_value ms)
                  then Some (decimal_value ys, decimal_value ms, d) else None)
           else None)
      | _ \<Rightarrow> None)"

text \<open>Earlier in the calendar: the order on year, then month, then day.\<close>

definition date_less :: "date \<Rightarrow> date \<Rightarrow> bool" where
  "date_less a b =
     (case a of (y, m, d) \<Rightarrow> case b of (y', m', d') \<Rightarrow>
        y < y' \<or> (y = y' \<and> (m < m' \<or> (m = m' \<and> d < d'))))"

text \<open>The form \<^verbatim>\<open>YYYY-MM-DD\<close> in the words of the specification: ten characters,
  digits except for the two hyphens.\<close>

definition is_yyyy_mm_dd :: "string \<Rightarrow> bool" where
  "is_yyyy_mm_dd s =
     (case s of
        [y1, y2, y3, y4, h1, m1, m2, h2, d1, d2] \<Rightarrow>
          list_all is_digit [y1, y2, y3, y4, m1, m2, d1, d2] \<and> h1 = CHR ''-'' \<and> h2 = CHR ''-''
      | _ \<Rightarrow> False)"

section \<open>Python operations on payload values\<close>

text \<open>\<^verbatim>\<open>obj[k1]...[kn]\<close> with string keys: a missing key is \<^verbatim>\<open>KeyError\<close>, a value
  that is not a dict is \<^verbatim>\<open>TypeError\<close>.\<close>

fun getitem_path :: "json \<Rightarrow> string list \<Rightarrow> pyerr + json" where
  "getitem_path v [] = Inr v"
| "getitem_path (JDict d) (k # ks) =
     (case map_of d k of None \<Rightarrow> Inl KeyError | Some c \<Rightarrow> getitem_path c ks)"
| "getitem_path _ (k # ks) = Inl TypeError"

text \<open>\<^verbatim>\<open>obj[k1]...[kn][key] = v\<close>, returning the updated object.\<close>

fun setitem_json :: "json \<Rightarrow> string list \<Rightarrow> string \<Rightarrow> json \<Rightarrow> pyerr + json" where
  "setitem_json (JDict d) [] key v = Inr (JDict (AList.update key v d))"
| "setitem_json (JDict d) (k # ks) key v =
     (case map_of d k of
        None \<Rightarrow> Inl KeyError
      | Some c \<Rightarrow>
          (case setitem_json c ks key v of
             Inl e \<Rightarrow> Inl e
           | Inr c' \<Rightarrow> Inr (JDict (AList.update k c' d))))"
| "setitem_json _ ks key v = Inl TypeError"

definition setitem_path :: "dict \<Rightarrow> string list \<Rightarrow> string \<Rightarrow> json \<Rightarrow> pyerr + dict" where
  "setitem_path payload ks key v =
     (case setitem_json (JDict payload) ks key v of
        Inr (JDict payload') \<Rightarrow> Inr payload'
      | Inr _ \<Rightarrow> Inl TypeError
      | Inl e \<Rightarrow> Inl e)"

text \<open>\<^verbatim>\<open>v[0]\<close>.\<close>

fun getitem_0 :: "json \<Rightarrow> pyerr + json" where
  "getitem_0 (JList []) = Inl IndexError"
| "getitem_0 (JList (x # xs)) = Inr x"
| "getitem_0 (JStr []) = Inl IndexError"
| "getitem_0 (JStr (c # cs)) = Inr (JStr [c])"
| "getitem_0 (JDict d) = Inl KeyError"
| "getitem_0 _ = Inl TypeError"

text \<open>\<^verbatim>\<open>a + b\<close>: numbers (a bool is an int), strings and lists add; the rest is
  \<^verbatim>\<open>TypeError\<close>.\<close>

fun int_of_json :: "json \<Rightarrow> int option" where
  "int_of_json (JInt n) = Some n"
| "int_of_json (JBool b) = Some (if b then 1 else 0)"
| "int_of_json _ = None"

definition py_add :: "json \<Rightarrow> json \<Rightarrow> pyerr + json" where
  "py_add a b =
     (case (int_of_json a, int_of_json b) of
        (Some m, Some n) \<Rightarrow> Inr (JInt (m + n))
      | _ \<Rightarrow>
        (case (a, b) of
           (JStr s, JStr t) \<Rightarrow> Inr (JStr (s @ t))
         | (JList xs, JList ys) \<Rightarrow> Inr (JList (xs @ ys))
         | _ \<Rightarrow> Inl TypeError))"

text \<open>\<^verbatim>\<open>a > n\<close> for an integer literal \<open>n\<close>.\<close>

definition py_gt :: "json \<Rightarrow> int \<Rightarrow> pyerr + bool" where
  "py_gt a n = (case int_of_json a of None \<Rightarrow> Inl TypeError | Some m \<Rightarrow> Inr (n < m))"

text \<open>\<^verbatim>\<open>d.get(k, default)\<close> on a value: \<^verbatim>\<open>AttributeError\<close> unless it is a dict.\<close>

fun py_get :: "json \<Rightarrow> string \<Rightarrow> json \<Rightarrow> pyerr + json" where
  "py_get (JDict d) k dflt = Inr (case map_of d k of None \<Rightarrow> dflt | Some v \<Rightarrow> v)"
| "py_get _ k dflt = Inl AttributeError"

section \<open>Session store\<close>

text \<open>
  The module \<^verbatim>\<open>app.session_manager\<close> is not among the sources. A session holds the
  collected info (a dict from names to stored values, of which the agent uses the entry
  \<^verbatim>\<open>payload\<close>), the conversation context (its entry \<^verbatim>\<open>last_question_key\<close>), the
  stage and the chat history; the store maps a session id to its session.
\<close>

record session =
  collected_info :: "string \<Rightarrow> dict option"
  last_question_key :: "string option"
  stage :: string
  chat_history :: "(string \<times> string) list"

type_synonym store = "string \<Rightarrow> session"

text \<open>Modelled from the spec: \<^verbatim>\<open>getSession(id) -> {collectedInfo, conversationContext}\<close>
  of the session-store collaborator reads the session of that id.\<close>

definition get_session :: "string \<Rightarrow> store \<Rightarrow> session" where
  "get_session session_id st = st session_id"

text \<open>Modelled from the spec: \<^verbatim>\<open>get_collected_info\<close>, the collected info of the
  session.\<close>

definition get_collected_info :: "string \<Rightarrow> store \<Rightarrow> (string \<Rightarrow> dict option)" where
  "get_collected_info session_id st = collected_info (st session_id)"

text \<open>Modelled from the spec: \<^verbatim>\<open>setCollectedInfo(id, key, value)\<close> stores the value
  under the key in the collected info of that session.\<close>

definition set_collected_info :: "string \<Rightarrow> string \<Rightarrow> dict \<Rightarrow> store \<Rightarrow> store" where
  "set_collected_info session_id key v st =
     st(session_id := (st session_id)
          \<lparr>collected_info := (collected_info (st session_id))(key \<mapsto> v)\<rparr>)"

text \<open>Modelled from the spec: \<^verbatim>\<open>updateConversationContext(id, {lastQuestionKey})\<close>
  sets the last asked field of that session (or clears it).\<close>

definition update_conversation_context :: "string \<Rightarrow> string option \<Rightarrow> store \<Rightarrow> store" where
  "update_conversation_context session_id key st =
     st(session_id := (st session_id)\<lparr>last_question_key := key\<rparr>)"

text \<open>Modelled from the spec: \<^verbatim>\<open>setStage(id, stageName)\<close> sets the stage of that
  session.\<close>

definition set_stage :: "string \<Rightarrow> string \<Rightarrow> store \<Rightarrow> store" where
  "set_stage session_id name st = st(session_id := (st session_id)\<lparr>stage := name\<rparr>)"

text \<open>Modelled from the spec: \<^verbatim>\<open>get_stage\<close>, the reader of the stage.\<close>

definition get_stage :: "string \<Rightarrow> store \<Rightarrow> string" where
  "get_stage session_id st = stage (st session_id)"

text \<open>Modelled from the spec: \<^verbatim>\<open>get_chat_history\<close>, the chat history of a
  session.\<close>

definition get_chat_history :: "string \<Rightarrow> store \<Rightarrow> (string \<times> string) list" where
  "get_chat_history session_id st = chat_history (st session_id)"

text \<open>Modelled from the spec: \<^verbatim>\<open>update_session\<close> records the exchange of the turn
  in the chat history and touches nothing else.\<close>

definition update_session :: "string \<Rightarrow> string \<Rightarrow> string \<Rightarrow> store \<Rightarrow> store" where
  "update_session session_id user_message agent_response st =
     st(session_id := (st session_id)
          \<lparr>chat_history := chat_history (st session_id) @ [(user_message, agent_response)]\<rparr>)"

text \<open>Modelled from the spec: \<^verbatim>\<open>clear_session_for_global_reset\<close>. The payload is
  "destroyed/reset when the owning session resets or a new conversation begins" and the
  conversation context is "cleared on explicit reset": the reset empties the collected
  info and clears the last asked field of that session.\<close>

definition clear_session_for_global_reset :: "string \<Rightarrow> store \<Rightarrow> store" where
  "clear_session_for_global_reset session_id st =
     st(session_id := (st session_id)
          \<lparr>collected_info := (\<lambda>k. None), last_question_key := None\<rparr>)"

section \<open>Collection state machine\<close>

definition is_greeting :: "string \<Rightarrow> bool" where
  "is_greeting user_message = (py_lower (py_strip user_message) \<in> set [''hi'', ''hello''])"

text \<open>Lines 90 to 98: the typed value of an answer, or the exception of \<^verbatim>\<open>int\<close>.\<close>

definition normalize_answer :: "string \<Rightarrow> string \<Rightarrow> pyerr + json" where
  "normalize_answer last_key answer =
     (if last_key = ''travel/policy_type'' then
        (if py_lower answer = ''s'' then Inr (JStr ''single'')
         else if py_lower answer = ''a'' then Inr (JStr ''annual'')
         else Inr (JStr answer))
      else if py_lower answer \<in> set [''true'', ''false'']
        then Inr (JBool (py_lower answer = ''true''))
      else if py_lower answer = ''no'' \<and> last_key = ''promotion/coupon_code'' then Inr (JStr [])
      else if py_isdigit answer then
        (case py_int answer of Inl e \<Rightarrow> Inl e | Inr n \<Rightarrow> Inr (JInt n))
      else Inr (JStr answer))"

text \<open>\<^verbatim>\<open>xs[0] if xs else 0\<close> for the adult or child list of the payload.\<close>

definition first_or_zero :: "dict \<Rightarrow> string \<Rightarrow> pyerr + json" where
  "first_or_zero payload who =
     (case getitem_path (JDict payload) [''travel'', ''number_of_travellers'', who] of
        Inl e \<Rightarrow> Inl e
      | Inr xs \<Rightarrow> if truthy xs then getitem_0 xs else Inr (JInt 0))"

definition yes_no :: "bool \<Rightarrow> json" where
  "yes_no b = JStr (if b then ''yes'' else ''no'')"

text \<open>
  Lines 100 to 112 inside their \<^verbatim>\<open>try\<close>: the payload is changed statement by
  statement, and an exception (swallowed by the \<^verbatim>\<open>except\<close> of line 115) leaves it
  as the statements before the failing one made it.
\<close>

definition save_answer :: "string \<Rightarrow> json \<Rightarrow> dict \<Rightarrow> dict" where
  "save_answer last_key answer payload =
     (if last_key \<in> set [''travel/number_of_travellers/adult'',
                           ''travel/number_of_travellers/child''] then
        (case setitem_path payload [''travel'', ''number_of_travellers'']
                (if last_key = ''travel/number_of_travellers/adult'' then ''adult'' else ''child'')
                (JList [answer]) of
           Inl e \<Rightarrow> payload
         | Inr p1 \<Rightarrow>
        (case first_or_zero p1 ''adult'' of Inl e \<Rightarrow> p1 | Inr adults \<Rightarrow>
        (case first_or_zero p1 ''child'' of Inl e \<Rightarrow> p1 | Inr children \<Rightarrow>
        (case py_add adults children of Inl e \<Rightarrow> p1 | Inr total_count \<Rightarrow>
        (case setitem_path p1 [''travel'', ''number_of_travellers''] ''total'' total_count of
           Inl e \<Rightarrow> p1
         | Inr p2 \<Rightarrow>
        (case py_gt children 0 of Inl e \<Rightarrow> p2 | Inr c \<Rightarrow>
        (case setitem_path p2 [''travel''] ''with_children'' (yes_no c) of
           Inl e \<Rightarrow> p2
         | Inr p3 \<Rightarrow>
        (case py_gt adults 1 of Inl e \<Rightarrow> p3 | Inr a \<Rightarrow>
        (case setitem_path p3 [''travel''] ''with_group_of_adults'' (yes_no a) of
           Inl e \<Rightarrow> p3
         | Inr p4 \<Rightarrow> p4)))))))))
      else if last_key = ''travel/country_code'' then
        (case answer of
           JStr s \<Rightarrow> dpath_set payload last_key (JList [JStr (py_upper s)])
         | _ \<Rightarrow> payload)
      else dpath_set payload last_key answer)"

text \<open>
  Lines 89 to 116: the whole \<^verbatim>\<open>try\<close>. An exception of the typing of the answer
  is swallowed like the others, before any statement has changed the payload.
\<close>

definition apply_answer :: "string \<Rightarrow> string \<Rightarrow> dict \<Rightarrow> dict" where
  "apply_answer last_key answer payload =
     (case normalize_answer last_key answer of
        Inl e \<Rightarrow> payload
      | Inr typed \<Rightarrow> save_answer last_key typed payload)"

definition invalid_date_hint :: string where
  "invalid_date_hint =
     ''That doesn't look like a valid date format. Please use YYYY-MM-DD.'' @ [CHR 0x0A, CHR 0x0A]"

text \<open>Lines 74 to 116: the outcome of applying the answer to the pending question: the
  early return of line 86, an exception, or the payload to go on with.\<close>

datatype turn = ReAsk string | Raised pyerr | Proceed dict

definition process_answer :: "string \<Rightarrow> string \<Rightarrow> dict \<Rightarrow> turn" where
  "process_answer last_key user_message payload =
     (let answer = py_strip user_message in
      if last_key \<in> set [''_internal/start_date'', ''_internal/end_date''] then
        (let date_str = py_replace CHR ''/'' CHR ''-'' answer in
         case strptime_ymd date_str of
           None \<Rightarrow>
             (case map_of get_question_map last_key of
                None \<Rightarrow> Raised KeyError
              | Some re_ask_question \<Rightarrow> ReAsk (invalid_date_hint @ re_ask_question))
         | Some dt \<Rightarrow>
             Proceed (apply_answer last_key date_str payload))
      else Proceed (apply_answer last_key answer payload))"

definition strptime_json :: "json \<Rightarrow> pyerr + date" where
  "strptime_json v =
     (case v of
        JStr s \<Rightarrow> (case strptime_ymd s of None \<Rightarrow> Inl ValueError | Some dt \<Rightarrow> Inr dt)
      | _ \<Rightarrow> Inl TypeError)"

text \<open>Lines 129 to 138: the day count and the removal of \<^verbatim>\<open>_internal\<close>.\<close>

definition finalize_payload :: "dict \<Rightarrow> pyerr + dict" where
  "finalize_payload payload =
     (let internal = (case map_of payload ''_internal'' of None \<Rightarrow> JDict [] | Some v \<Rightarrow> v) in
      case py_get internal ''start_date'' JNull of
        Inl e \<Rightarrow> Inl e
      | Inr start_str \<Rightarrow>
     (case py_get internal ''end_date'' JNull of
        Inl e \<Rightarrow> Inl e
      | Inr end_str \<Rightarrow>
     (case (if truthy start_str \<and> truthy end_str then
              (case strptime_json start_str of
                 Inl e \<Rightarrow> Inl e
               | Inr start \<Rightarrow>
              (case strptime_json end_str of
                 Inl e \<Rightarrow> Inl e
               | Inr end_date \<Rightarrow>
                   setitem_path payload [''travel''] ''number_of_days''
                     (JInt (max (toordinal end_date - toordinal start + 1) 1))))
            else Inr payload) of
        Inl e \<Rightarrow> Inl e
      | Inr payload' \<Rightarrow> Inr (AList.delete ''_internal'' payload'))))"

text \<open>
  Line 143 builds the JSON text of the final payload for the log. \<^verbatim>\<open>json.dumps\<close>
  writes every integer of the payload in decimal, at any depth, so it raises
  \<^verbatim>\<open>ValueError\<close> when one of them has more digits than the limit. The text itself is
  only logged, so the model keeps whether the call raises.
\<close>

fun json_dumps_fails :: "json \<Rightarrow> bool" where
  "json_dumps_fails (JInt n) = str_int_fails n"
| "json_dumps_fails (JList xs) = list_ex json_dumps_fails xs"
| "json_dumps_fails (JDict d) = list_ex json_dumps_fails (map snd d)"
| "json_dumps_fails v = False"

text \<open>
  Lines 129 to 147. The final payload is persisted at line 140, before line 143: when
  \<^verbatim>\<open>json.dumps\<close> raises, the turn ends there, with the stage and the pending
  question as they were.
\<close>

definition finish_collection :: "string \<Rightarrow> dict \<Rightarrow> store \<Rightarrow> store \<times> (pyerr + string)" where
  "finish_collection session_id payload st =
     (case finalize_payload payload of
        Inl e \<Rightarrow> (st, Inl e)
      | Inr final \<Rightarrow>
          (let st2 = set_collected_info session_id ''payload'' final st in
           if json_dumps_fails (JDict final) then (st2, Inl ValueError)
           else
             (update_conversation_context session_id None
                (set_stage session_id ''quote_generation'' st2),
              Inr ''Thank you, I have all the information. Generating your quote now...'')))"

text \<open>Lines 64 to 68: the payload of the session, or the template.\<close>

definition current_payload :: "session \<Rightarrow> dict" where
  "current_payload session =
     (case collected_info session ''payload'' of
        None \<Rightarrow> get_payload_template | Some p \<Rightarrow> p)"

text \<open>Lines 70 to 116: the pending answer is applied when a question is pending and
  the message is no greeting.\<close>

definition answer_turn :: "string \<Rightarrow> session \<Rightarrow> turn" where
  "answer_turn user_message session =
     (case last_question_key session of
        None \<Rightarrow> Proceed (current_payload session)
      | Some last_key \<Rightarrow>
          if last_key \<noteq> [] \<and> \<not> is_greeting user_message
          then process_answer last_key user_message (current_payload session)
          else Proceed (current_payload session))"

text \<open>
  One turn. The result is the store after the turn and either the exception that left
  the function or the text of its \<^verbatim>\<open>output\<close>. The history argument is unused, as in
  the source. No exception leaves the function between a change of the payload and the
  next \<^verbatim>\<open>set_collected_info\<close>, so the store is the same whether it holds the payload
  object itself or a copy.
\<close>

definition run_travel_payload_agent ::
  "string \<Rightarrow> (string \<times> string) list \<Rightarrow> string \<Rightarrow> store \<Rightarrow> store \<times> (pyerr + string)" where
  "run_travel_payload_agent user_message history session_id st =
     (case answer_turn user_message (get_session session_id st) of
        ReAsk out \<Rightarrow> (st, Inr out)
      | Raised e \<Rightarrow> (st, Inl e)
      | Proceed payload \<Rightarrow>
          (let next_key = find_next_question_key payload;
               st1 = set_collected_info session_id ''payload'' payload st
           in case next_key of
                None \<Rightarrow> finish_collection session_id payload st1
              | Some key \<Rightarrow>
                  if key = [] then finish_collection session_id payload st1
                  else (case map_of get_question_map key of
                          None \<Rightarrow> (st1, Inl KeyError)
                        | Some next_question \<Rightarrow>
                            (update_conversation_context session_id (Some key) st1,
                             Inr next_question))))"

section \<open>Quote manager\<close>

text \<open>
  The response of the quotation service is JSON that may hold floats. The float type of
  the Python runtime is a type parameter, and the conversions into it, its formatting under
  \<^verbatim>\<open>:.2f\<close> and \<^verbatim>\<open>str\<close> of a response value are parameters of the model. Which
  values \<^verbatim>\<open>float\<close> refuses is fixed: \<^verbatim>\<open>None\<close>, a list and a dict raise
  \<^verbatim>\<open>TypeError\<close>, a string that is no number raises \<^verbatim>\<open>ValueError\<close>, and an
  integer that rounds to \<open>2 ^ 1024\<close> or beyond raises \<^verbatim>\<open>OverflowError\<close>
  ("int too large to convert to float").
\<close>

datatype 'f rjson =
    RNull
  | RBool bool
  | RInt int
  | RFloat 'f
  | RStr string
  | RList "'f rjson list"
  | RDict "(string \<times> 'f rjson) list"

record 'f runtime =
  float_of_int :: "int \<Rightarrow> 'f"
  float_of_str :: "string \<Rightarrow> 'f option"
  format_2f :: "'f \<Rightarrow> string"
  str_of :: "'f rjson \<Rightarrow> string"

definition int_too_large :: "int \<Rightarrow> bool" where
  "int_too_large n = (2 ^ 1024 - 2 ^ 970 \<le> \<bar>n\<bar>)"

definition py_float :: "'f runtime \<Rightarrow> 'f rjson \<Rightarrow> pyerr + 'f" where
  "py_float rt v =
     (case v of
        RFloat x \<Rightarrow> Inr x
      | RInt n \<Rightarrow> if int_too_large n then Inl OverflowError else Inr (float_of_int rt n)
      | RBool b \<Rightarrow> Inr (float_of_int rt (if b then 1 else 0))
      | RStr s \<Rightarrow> (case float_of_str rt s of None \<Rightarrow> Inl ValueError | Some x \<Rightarrow> Inr x)
      | _ \<Rightarrow> Inl TypeError)"

text \<open>\<^verbatim>\<open>r.get(k, default)\<close> on a response value.\<close>

fun rget :: "'f rjson \<Rightarrow> string \<Rightarrow> 'f rjson \<Rightarrow> pyerr + 'f rjson" where
  "rget (RDict d) k dflt = Inr (case map_of d k of None \<Rightarrow> dflt | Some v \<Rightarrow> v)"
| "rget _ k dflt = Inl AttributeError"

definition rdict_get :: "(string \<times> 'f rjson) list \<Rightarrow> string \<Rightarrow> 'f rjson" where
  "rdict_get d k = (case map_of d k of None \<Rightarrow> RNull | Some v \<Rightarrow> v)"

fun rgetitem_0 :: "'f rjson \<Rightarrow> pyerr + 'f rjson" where
  "rgetitem_0 (RList []) = Inl IndexError"
| "rgetitem_0 (RList (x # xs)) = Inr x"
| "rgetitem_0 (RStr []) = Inl IndexError"
| "rgetitem_0 (RStr (c # cs)) = Inr (RStr [c])"
| "rgetitem_0 (RDict d) = Inl KeyError"
| "rgetitem_0 _ = Inl TypeError"

definition py_capitalize :: "string \<Rightarrow> string" where
  "py_capitalize s =
     (case s of
        [] \<Rightarrow> []
      | c # cs \<Rightarrow> (if c = CHR 0xDF then ''Ss'' else [upper_char c]) @ map lower_char cs)"

definition price_not_available :: string where
  "price_not_available = ''Price not available''"

text \<open>
  Lines 67 to 81. The test \<^verbatim>\<open>x and isinstance(x, dict)\<close> holds exactly for a dict
  that is not empty. The inner \<^verbatim>\<open>except\<close> catches \<^verbatim>\<open>ValueError\<close> and
  \<^verbatim>\<open>TypeError\<close> only.
\<close>

definition price_str :: "'f runtime \<Rightarrow> 'f rjson \<Rightarrow> json \<Rightarrow> pyerr + string" where
  "price_str rt quote_response plan_tier =
     (case rget quote_response ''data'' RNull of
        Inl e \<Rightarrow> Inl e
      | Inr (RDict dat) \<Rightarrow>
          if dat = [] then Inr price_not_available
          else
            (case rdict_get dat ''premiums'' of
               RDict premiums \<Rightarrow>
                 if premiums = [] then Inr price_not_available
                 else
                   (case plan_tier of
                      JStr plan \<Rightarrow>
                        (case rdict_get premiums (py_lower plan) of
                           RDict plan_info \<Rightarrow>
                             if plan_info = [] then Inr price_not_available
                             else
                               (case py_float rt (rdict_get plan_info ''discounted_premium'') of
                                  Inr x \<Rightarrow> Inr (''S$'' @ format_2f rt x)
                                | Inl e \<Rightarrow>
                                    if e = ValueError \<or> e = TypeError
                                    then Inr price_not_available else Inl e)
                         | _ \<Rightarrow> Inr price_not_available)
                    | _ \<Rightarrow> Inl AttributeError)
             | _ \<Rightarrow> Inr price_not_available)
      | Inr _ \<Rightarrow> Inr price_not_available)"

datatype quote_outcome = ApiError string | Quoted string

text \<open>Lines 61 to 83, whose exceptions the \<^verbatim>\<open>except\<close> of line 88 catches.\<close>

definition quote_body :: "'f runtime \<Rightarrow> 'f rjson \<Rightarrow> dict \<Rightarrow> pyerr + quote_outcome" where
  "quote_body rt quote_response final_payload =
     (case rget quote_response ''success'' RNull of
        Inl e \<Rightarrow> Inl e
      | Inr success \<Rightarrow>
          if success \<noteq> RStr ''ok'' \<and> success \<noteq> RStr ''true'' then
            (case rget quote_response ''errors'' (RList [RStr ''Unknown API error'']) of
               Inl e \<Rightarrow> Inl e
             | Inr errors \<Rightarrow>
                 (case rgetitem_0 errors of
                    Inl e \<Rightarrow> Inl e
                  | Inr first \<Rightarrow>
                      Inr (ApiError (''Sorry, there was an error getting the quote: ''
                                      @ str_of rt first))))
          else
            (case py_get (case map_of final_payload ''travel'' of
                            None \<Rightarrow> JDict [] | Some t \<Rightarrow> t) ''plan'' (JStr ''basic'') of
               Inl e \<Rightarrow> Inl e
             | Inr plan_tier \<Rightarrow>
                 (case price_str rt quote_response plan_tier of
                    Inl e \<Rightarrow> Inl e
                  | Inr price \<Rightarrow>
                      (case plan_tier of
                         JStr plan \<Rightarrow>
                           Inr (Quoted (''Your quote for the **'' @ py_capitalize plan
                                  @ '' Plan** has been generated. The premium is **''
                                  @ price @ ''**.''))
                       | _ \<Rightarrow> Inl AttributeError))))"

text \<open>
  \<^verbatim>\<open>run_quote_generation\<close>. The call of the quotation service (or of its mock) is the
  parameter \<open>api\<close>, from the request to the response. The function always returns an
  output text.
\<close>

definition run_quote_generation ::
  "'f runtime \<Rightarrow> (dict \<Rightarrow> 'f rjson) \<Rightarrow> string \<Rightarrow> store \<Rightarrow> store \<times> string" where
  "run_quote_generation rt api session_id st =
     (let lost = (set_stage session_id ''payload_collection'' st,
                  ''I seem to have lost your details. Let's start over.'')
      in case get_collected_info session_id st ''payload'' of
           None \<Rightarrow> lost
         | Some final_payload \<Rightarrow>
             if final_payload = [] then lost
             else
               (case quote_body rt (api final_payload) final_payload of
                  Inl e \<Rightarrow>
                    (set_stage session_id ''initial'' st,
                     ''I'm sorry, I ran into an error while generating your quote.'')
                | Inr (ApiError out) \<Rightarrow> (st, out)
                | Inr (Quoted final_message) \<Rightarrow>
                    (set_stage session_id ''initial'' st, final_message)))"

section \<open>Orchestrator\<close>

definition critical_error :: string where
  "critical_error = ''I'm sorry, a critical error occurred.''"

text \<open>A collection turn under the \<^verbatim>\<open>except\<close> of line 41, followed by
  \<^verbatim>\<open>update_session\<close>.\<close>

definition collection_turn :: "string \<Rightarrow> (string \<times> string) list \<Rightarrow> string \<Rightarrow> store \<Rightarrow> store \<times> string" where
  "collection_turn user_message history session_id st =
     (case run_travel_payload_agent user_message history session_id st of
        (st', Inl e) \<Rightarrow> (st', critical_error)
      | (st', Inr agent_response) \<Rightarrow>
          (update_session session_id user_message agent_response st', agent_response))"

definition orchestrate_chat ::
  "'f runtime \<Rightarrow> (dict \<Rightarrow> 'f rjson) \<Rightarrow> string \<Rightarrow> string \<Rightarrow> store \<Rightarrow> store \<times> string" where
  "orchestrate_chat rt api user_message session_id st =
     (if is_greeting user_message then
        collection_turn user_message [] session_id
          (set_stage session_id ''payload_collection''
             (clear_session_for_global_reset session_id st))
      else
        (let stage_name = get_stage session_id st;
             history = get_chat_history session_id st
         in if stage_name = ''payload_collection'' then
              collection_turn user_message history session_id st
            else if stage_name = ''quote_generation'' then
              (case run_quote_generation rt api session_id st of
                 (st', agent_response) \<Rightarrow>
                   (update_session session_id user_message agent_response st', agent_response))
            else
              collection_turn user_message history session_id
                (set_stage session_id ''payload_collection'' st)))"

section \<open>Paths that part ways\<close>

text \<open>Two paths diverge when they differ at a segment they both have: a write at one
  of them leaves the value at the other alone.\<close>

fun diverge :: "string list \<Rightarrow> string list \<Rightarrow> bool" where
  "diverge (a # as) (b # bs) = (a \<noteq> b \<or> diverge as bs)"
| "diverge _ _ = False"

section \<open>Well-formed dates and sessions\<close>

text \<open>A date of the calendar, as \<^verbatim>\<open>strptime\<close> returns it.\<close>

definition valid_date :: "date \<Rightarrow> bool" where
  "valid_date dt =
     (case dt of (y, m, d) \<Rightarrow>
        1 \<le> y \<and> 1 \<le> m \<and> m \<le> 12 \<and> 1 \<le> d \<and> d \<le> days_in_month y m)"

text \<open>
  The sessions the agent itself produces: the pending question is none or a key of the
  question map, and each date field of the payload is missing, still null, or a string
  that the validator accepted.
\<close>

fun recorded_date :: "json option \<Rightarrow> bool" where
  "recorded_date None = True"
| "recorded_date (Some JNull) = True"
| "recorded_date (Some (JStr s)) = (strptime_ymd s \<noteq> None)"
| "recorded_date (Some _) = False"

definition dates_ok :: "dict \<Rightarrow> bool" where
  "dates_ok payload =
     (recorded_date (dpath_get payload ''_internal/start_date'')
      \<and> recorded_date (dpath_get payload ''_internal/end_date''))"

definition pending_ok :: "string option \<Rightarrow> bool" where
  "pending_ok pending =
     (case pending of None \<Rightarrow> True | Some key \<Rightarrow> key \<in> set (map fst get_question_map))"

definition session_ok :: "session \<Rightarrow> bool" where
  "session_ok session =
     (pending_ok (last_question_key session) \<and> dates_ok (current_payload session))"

section \<open>Traveller counts in the words of the specification\<close>


section \<open>The premium of a response in the words of the specification\<close>

text \<open>The value at \<^verbatim>\<open>data.premiums[plan name lower-cased].discounted_premium\<close> of a
  response, when every level on the way is a dict that has the next key.\<close>

definition premium_entry :: "'f rjson \<Rightarrow> string \<Rightarrow> 'f rjson option" where
  "premium_entry quote_response plan =
     (case quote_response of
        RDict body \<Rightarrow>
          (case map_of body ''data'' of
             Some (RDict dat) \<Rightarrow>
               (case map_of dat ''premiums'' of
                  Some (RDict premiums) \<Rightarrow>
                    (case map_of premiums (py_lower plan) of
                       Some (RDict plan_info) \<Rightarrow> map_of plan_info ''discounted_premium''
                     | _ \<Rightarrow> None)
                | _ \<Rightarrow> None)
           | _ \<Rightarrow> None)
      | _ \<Rightarrow> None)"

text \<open>A successful response whose premium for the plan \<^verbatim>\<open>basic\<close> is the integer
  \<open>10 ^ 400\<close>.\<close>

definition huge_premium_response :: "'f rjson" where
  "huge_premium_response =
     RDict [(''success'', RStr ''true''),
            (''data'', RDict [(''premiums'', RDict [(''basic'',
               RDict [(''discounted_premium'', RInt (10 ^ 400))])])])]"

section \<open>An example runtime and quotation service\<close>

text \<open>For closed examples: a runtime whose floats are the integers, that parses no
  string and prints nothing, and a quotation service that answers every request with
  the same response.\<close>

definition example_runtime :: "int runtime" where
  "example_runtime =
     \<lparr>float_of_int = (\<lambda>n. n), float_of_str = (\<lambda>s. None),
      format_2f = (\<lambda>x. []), str_of = (\<lambda>v. [])\<rparr>"

definition example_api :: "'f rjson \<Rightarrow> dict \<Rightarrow> 'f rjson" where
  "example_api response request = response"

section \<open>Example sessions\<close>

text \<open>The payload of a conversation in which every question but the last has been
  answered, with the value of the coupon field left open, and a store whose sessions
  all hold a given payload and pending question.\<close>

definition example_payload :: "json \<Rightarrow> dict" where
  "example_payload coupon =
    [(''_internal'', JDict [(''start_date'', JStr ''2024-03-01''),
                            (''end_date'', JStr ''2024-03-05'')]),
     (''ProductCode'', JStr ''TVP''),
     (''media'', JDict [(''wcc'', JStr ''HLS'')]),
     (''travel'', JDict
        [(''policy_type'', JStr ''single''), (''country_code'', JList [JStr ''MAL'']),
         (''number_of_days'', JNull), (''zone'', JNull), (''with_children'', JStr ''yes''),
         (''with_spouse'', JStr ''no''), (''with_group_of_adults'', JStr ''yes''),
         (''with_group_of_households'', JStr ''no''), (''plan'', JStr ''basic''),
         (''selectedAddOns'', JDict
            [(''preExAddOn'', JDict [(''selected'', JBool True), (''preselected'', JBool False)]),
             (''lossFFMAddOn'', JDict [(''selected'', JBool False), (''preselected'', JBool False)]),
             (''flightDelayAddOn'', JDict [(''selected'', JBool False), (''preselected'', JBool False)])]),
         (''number_of_travellers'', JDict
            [(''total'', JInt 3), (''child'', JList [JInt 1]), (''adult'', JList [JInt 2]),
             (''group'', JInt 1)])]),
     (''promotion'', JDict [(''coupon_code'', coupon)]),
     (''leads'', JDict [(''email'', JStr ''a@b.c''), (''contact_mobile'', JInt 12345678)]),
     (''CEPParams'', JDict [])]"


definition example_store :: "dict option \<Rightarrow> string option \<Rightarrow> store" where
  "example_store payload pending =
     (\<lambda>session_id.
        \<lparr>collected_info = (\<lambda>k. if k = ''payload'' then payload else None),
         last_question_key = pending,
         stage = ''payload_collection'',
         chat_history = []\<rparr>)"

section \<open>The field resolver returns the first unanswered field\<close>

lemma find_next_loop_find:
  "find_next_loop keys payload = List.find (unanswered payload) keys"
  by (induction keys) (auto simp: unanswered_def split: option.splits)

lemma template_first:
  "find_next_question_key get_payload_template = Some ''travel/policy_type''"
  by (simp add: find_next_question_key_def get_question_map_def get_payload_template_def
      dpath_get_def split_path_def)

text \<open>
  Claim C1. For every payload, \<open>find_next_question_key\<close> returns the first field path of
  the question map, in the map's order, whose value is missing, null or the empty list;
  it returns none exactly when no field path of the map is unanswered; and on the template
  payload it returns \<^verbatim>\<open>travel/policy_type\<close>.
\<close>

theorem find_next_question_key_first_unanswered:
  "(find_next_question_key payload = Some key \<longleftrightarrow>
      (\<exists>i < length get_question_map.
          fst (get_question_map ! i) = key \<and> unanswered payload key \<and>
          (\<forall>j < i. \<not> unanswered payload (fst (get_question_map ! j)))))
   \<and> (find_next_question_key payload = None \<longleftrightarrow>
        (\<forall>key \<in> fst ` set get_question_map. \<not> unanswered payload key))
   \<and> find_next_question_key get_payload_template = Some ''travel/policy_type''"
proof (intro conjI)
  show "find_next_question_key payload = Some key \<longleftrightarrow>
      (\<exists>i < length get_question_map.
          fst (get_question_map ! i) = key \<and> unanswered payload key \<and>
          (\<forall>j < i. \<not> unanswered payload (fst (get_question_map ! j))))"
    unfolding find_next_question_key_def find_next_loop_find find_Some_iff
    by auto
  show "find_next_question_key payload = None \<longleftrightarrow>
        (\<forall>key \<in> fst ` set get_question_map. \<not> unanswered payload key)"
    unfolding find_next_question_key_def find_next_loop_find find_None_iff by auto
  show "find_next_question_key get_payload_template = Some ''travel/policy_type''"
    by (rule template_first)
qed

theorem find_next_question_key_first_unanswered_witness:
  "find_next_question_key (example_payload (JStr [])) = None"
proof -
  have "\<forall>key \<in> fst ` set get_question_map. \<not> unanswered (example_payload (JStr [])) key"
    by code_simp
  then show ?thesis
    using find_next_question_key_first_unanswered [of "example_payload (JStr [])"] by blast
qed

section \<open>The prompt of the next question always exists\<close>

lemma question_keys:
  "map fst get_question_map =
     [''travel/policy_type'', ''_internal/start_date'', ''_internal/end_date'',
      ''travel/country_code'', ''travel/number_of_travellers/adult'',
      ''travel/number_of_travellers/child'', ''travel/selectedAddOns/preExAddOn/selected'',
      ''travel/selectedAddOns/lossFFMAddOn/selected'',
      ''travel/selectedAddOns/flightDelayAddOn/selected'', ''leads/email'',
      ''leads/contact_mobile'', ''promotion/coupon_code'']"
  by (simp add: get_question_map_def)

lemma find_next_loop_in_keys:
  "find_next_loop keys payload = Some key \<Longrightarrow> key \<in> set keys"
  by (induction keys) (auto split: option.splits if_splits)

lemma find_next_in_map:
  assumes "find_next_question_key payload = Some key"
  shows "key \<noteq> [] \<and> (\<exists>q. map_of get_question_map key = Some q)"
proof -
  from assms have k: "key \<in> set (map fst get_question_map)"
    unfolding find_next_question_key_def by (rule find_next_loop_in_keys)
  then have "key \<noteq> []" unfolding question_keys by auto
  moreover from k have "map_of get_question_map key \<noteq> None"
    by (simp add: map_of_eq_None_iff)
  ultimately show ?thesis by auto
qed

lemma get_segments_dict:
  "get_segments (JDict d) (s # ss) = Some v \<Longrightarrow> \<exists>c. map_of d s = Some c \<and> get_segments c ss = Some v"
  by (auto split: option.splits)

lemma get_segments_child:
  "get_segments v (s # ss) = Some x \<Longrightarrow> \<exists>d c. v = JDict d \<and> map_of d s = Some c \<and> get_segments c ss = Some x"
  by (cases v) (auto split: option.splits)

lemma find_next_None_answered:
  "find_next_question_key payload = None \<Longrightarrow> key \<in> set (map fst get_question_map) \<Longrightarrow> \<not> unanswered payload key"
  unfolding find_next_question_key_def find_next_loop_find find_None_iff by blast

lemma split_policy_type: "split_path ''travel/policy_type'' = [''travel'', ''policy_type'']"
  by code_simp

lemma complete_has_travel:
  assumes "find_next_question_key payload = None"
  shows "\<exists>d. map_of payload ''travel'' = Some (JDict d)"
proof -
  have "\<not> unanswered payload ''travel/policy_type''"
    using assms by (rule find_next_None_answered) (simp add: question_keys)
  then obtain v where "get_segments (JDict payload) [''travel'', ''policy_type''] = Some v"
    unfolding unanswered_def dpath_get_def split_policy_type
    by (cases "get_segments (JDict payload) [''travel'', ''policy_type'']") blast+
  then obtain c where c: "map_of payload ''travel'' = Some c" "get_segments c [''policy_type''] = Some v"
    by (blast dest: get_segments_dict)
  from c(2) show ?thesis using c(1) by (blast dest: get_segments_child)
qed

lemma setitem_travel_ok:
  "map_of payload ''travel'' = Some (JDict d) \<Longrightarrow>
   setitem_path payload [''travel''] key v = Inr (AList.update ''travel'' (JDict (AList.update key v d)) payload)"
  by (simp add: setitem_path_def)

lemma finalize_no_KeyError:
  assumes "find_next_question_key payload = None"
  shows "finalize_payload payload \<noteq> Inl KeyError"
proof -
  obtain d where d: "map_of payload ''travel'' = Some (JDict d)"
    using complete_has_travel[OF assms] by blast
  show ?thesis
    unfolding finalize_payload_def Let_def
    by (cases "case map_of payload ''_internal'' of None \<Rightarrow> JDict [] | Some v \<Rightarrow> v")
       (auto simp: setitem_travel_ok[OF d] strptime_json_def split: sum.splits json.splits option.splits if_splits)
qed

lemma process_answer_not_Raised: "process_answer key user_message payload \<noteq> Raised e"
  by (auto simp: process_answer_def Let_def get_question_map_def split: option.splits)

lemma answer_turn_not_Raised: "answer_turn user_message session \<noteq> Raised e"
  by (auto simp: answer_turn_def process_answer_not_Raised split: option.splits)

text \<open>
  Claim C10. For every payload, \<open>find_next_question_key\<close> returns none or a key of the
  question map, so the lookup \<^verbatim>\<open>question_map[next_key]\<close> of a turn finds its prompt:
  no turn of \<open>run_travel_payload_agent\<close> ends in a \<^verbatim>\<open>KeyError\<close>.
\<close>

theorem question_lookup_never_fails:
  "(find_next_question_key payload = None \<or>
      (\<exists>key q. find_next_question_key payload = Some key \<and> map_of get_question_map key = Some q))
   \<and> snd (run_travel_payload_agent user_message history session_id st) \<noteq> Inl KeyError"
proof
  show "find_next_question_key payload = None \<or>
      (\<exists>key q. find_next_question_key payload = Some key \<and> map_of get_question_map key = Some q)"
    using find_next_in_map by (cases "find_next_question_key payload") auto
next
  show "snd (run_travel_payload_agent user_message history session_id st) \<noteq> Inl KeyError"
  proof (cases "answer_turn user_message (get_session session_id st)")
    case (ReAsk out)
    then show ?thesis by (simp add: run_travel_payload_agent_def)
  next
    case (Raised e)
    then show ?thesis by (simp add: answer_turn_not_Raised)
  next
    case (Proceed p)
    show ?thesis
    proof (cases "find_next_question_key p")
      case None
      then show ?thesis
        using Proceed finalize_no_KeyError[OF None]
        by (auto simp: run_travel_payload_agent_def finish_collection_def Let_def
            simp del: json_dumps_fails.simps split: sum.splits)
    next
      case (Some key)
      with find_next_in_map[OF Some] Proceed show ?thesis
        by (auto simp: run_travel_payload_agent_def Let_def)
    qed
  qed
qed

section \<open>An invalid date is asked again\<close>

lemma store_same_payload:
  "collected_info (st session_id) ''payload'' = Some payload \<Longrightarrow>
   set_collected_info session_id ''payload'' payload st = st"
  by (simp add: set_collected_info_def map_upd_triv)

lemma store_same_key:
  "last_question_key (st session_id) = key \<Longrightarrow>
   update_conversation_context session_id key st = st"
  by (auto simp: update_conversation_context_def)

text \<open>
  Claim C2. When the pending question is \<^verbatim>\<open>_internal/start_date\<close> or
  \<^verbatim>\<open>_internal/end_date\<close> and the trimmed message, with \<^verbatim>\<open>/\<close> replaced by
  \<^verbatim>\<open>-\<close>, does not parse as a date, the turn returns a message that ends with the
  question text of that field and leaves the store as it was: neither the persisted
  payload nor \<^verbatim>\<open>last_question_key\<close> changes. A greeting is no answer and skips the
  validation; for it the same holds in a session whose pending question is the first
  unanswered field of its payload, which is how every prompting turn leaves the session.
\<close>

theorem invalid_date_is_asked_again:
  assumes pending: "last_question_key (st session_id) = Some key"
    and date_key: "key = ''_internal/start_date'' \<or> key = ''_internal/end_date''"
    and invalid: "strptime_ymd (py_replace CHR ''/'' CHR ''-'' (py_strip user_message)) = None"
    and greeting: "is_greeting user_message \<Longrightarrow>
          collected_info (st session_id) ''payload'' = Some payload
          \<and> find_next_question_key payload = Some key"
  shows "\<exists>question. map_of get_question_map key = Some question \<and>
           run_travel_payload_agent user_message history session_id st =
             (st, Inr ((if is_greeting user_message then [] else invalid_date_hint) @ question))"
proof -
  from date_key obtain question where q: "map_of get_question_map key = Some question"
    by (auto simp: get_question_map_def)
  from date_key have ne: "key \<noteq> []" by auto
  show ?thesis
  proof (cases "is_greeting user_message")
    case False
    with pending date_key invalid q ne
    have "answer_turn user_message (get_session session_id st) = ReAsk (invalid_date_hint @ question)"
      by (auto simp: answer_turn_def get_session_def process_answer_def Let_def)
    with q False show ?thesis by (simp add: run_travel_payload_agent_def)
  next
    case True
    with greeting have p: "collected_info (st session_id) ''payload'' = Some payload"
      and n: "find_next_question_key payload = Some key" by auto
    from pending True p
    have "answer_turn user_message (get_session session_id st) = Proceed payload"
      by (simp add: answer_turn_def get_session_def current_payload_def)
    with n q ne True show ?thesis
      by (simp add: run_travel_payload_agent_def Let_def store_same_payload p
          store_same_key pending)
  qed
qed

theorem invalid_date_is_asked_again_witness:
  "run_travel_payload_agent ''tomorrow'' [] ''u''
      (example_store (Some get_payload_template) (Some ''_internal/start_date'')) =
     (example_store (Some get_payload_template) (Some ''_internal/start_date''),
      Inr (invalid_date_hint @ ''What is your travel start date (YYYY-MM-DD)?''))
   \<and> run_travel_payload_agent ''Hello'' [] ''u''
      (example_store (Some (dpath_set get_payload_template ''travel/policy_type'' (JStr ''single'')))
         (Some ''_internal/start_date'')) =
     (example_store (Some (dpath_set get_payload_template ''travel/policy_type'' (JStr ''single'')))
         (Some ''_internal/start_date''),
      Inr ''What is your travel start date (YYYY-MM-DD)?'')"
proof -
  let ?k = "''_internal/start_date''"
  let ?p = "dpath_set get_payload_template ''travel/policy_type'' (JStr ''single'')"
  have q: "map_of get_question_map ?k = Some ''What is your travel start date (YYYY-MM-DD)?''"
    by code_simp
  have a: "last_question_key (example_store (Some get_payload_template) (Some ?k) ''u'') = Some ?k"
    by (simp add: example_store_def)
  have b: "strptime_ymd (py_replace CHR ''/'' CHR ''-'' (py_strip ''tomorrow'')) = None"
    by code_simp
  have c: "\<not> is_greeting ''tomorrow''" by code_simp
  have first: "run_travel_payload_agent ''tomorrow'' [] ''u''
      (example_store (Some get_payload_template) (Some ?k)) =
     (example_store (Some get_payload_template) (Some ?k),
      Inr (invalid_date_hint @ ''What is your travel start date (YYYY-MM-DD)?''))"
    using invalid_date_is_asked_again [where st = "example_store (Some get_payload_template) (Some ?k)"
        and session_id = "''u''" and key = ?k and user_message = "''tomorrow''"
        and history = "[]" and payload = "[]", OF a _ b] c q
    by simp
  have a': "last_question_key (example_store (Some ?p) (Some ?k) ''u'') = Some ?k"
    by (simp add: example_store_def)
  have b': "strptime_ymd (py_replace CHR ''/'' CHR ''-'' (py_strip ''Hello'')) = None"
    by code_simp
  have c': "is_greeting ''Hello''" by code_simp
  have d': "collected_info (example_store (Some ?p) (Some ?k) ''u'') ''payload'' = Some ?p"
    by (simp add: example_store_def)
  have e': "find_next_question_key ?p = Some ?k" by code_simp
  have second: "run_travel_payload_agent ''Hello'' [] ''u'' (example_store (Some ?p) (Some ?k)) =
     (example_store (Some ?p) (Some ?k), Inr ''What is your travel start date (YYYY-MM-DD)?'')"
    using invalid_date_is_asked_again [where st = "example_store (Some ?p) (Some ?k)"
        and session_id = "''u''" and key = ?k and user_message = "''Hello''"
        and history = "[]" and payload = ?p, OF a' _ b'] c' d' e' q
    by simp
  from first second show ?thesis by simp
qed

section \<open>Reading and writing payload paths\<close>

lemma get_after_set:
  "set_segments v ss x = Some v' \<Longrightarrow> get_segments v' ss = Some x"
  by (induction v ss x arbitrary: v' rule: set_segments.induct)
     (auto simp: update_conv' split: option.splits)

lemma set_defined:
  "get_segments v ss = Some y \<Longrightarrow> \<exists>v'. set_segments v ss x = Some v'"
proof (induction v ss x arbitrary: y rule: set_segments.induct)
  case (2 d s ss v)
  then show ?case by (fastforce split: option.splits)
qed auto

lemma set_segments_frame:
  "set_segments v ss x = Some v' \<Longrightarrow> diverge ss ts \<Longrightarrow> get_segments v' ts = get_segments v ts"
proof (induction v ss x arbitrary: v' ts rule: set_segments.induct)
  case (2 d s ss v)
  then show ?case
    by (cases ts) (auto simp: update_conv' split: option.splits)
qed auto

lemma set_segments_dict:
  "set_segments (JDict d) (s # ss) x = Some v' \<Longrightarrow> \<exists>d'. v' = JDict d'"
  by (auto split: option.splits)

lemma split_path_nonempty: "split_path k \<noteq> []"
proof -
  have "py_split c s \<noteq> []" for c s
    by (induction s) (auto split: list.splits)
  then show ?thesis by (simp add: split_path_def)
qed

lemma dpath_get_after_set:
  assumes "dpath_get p k \<noteq> None"
  shows "dpath_get (dpath_set p k x) k = Some x"
proof -
  obtain s ss where sp: "split_path k = s # ss"
    using split_path_nonempty[of k] by (cases "split_path k") auto
  from assms obtain y where "get_segments (JDict p) (s # ss) = Some y"
    by (auto simp: dpath_get_def sp)
  then obtain v' where v': "set_segments (JDict p) (s # ss) x = Some v'"
    using set_defined by blast
  then obtain d' where d': "v' = JDict d'" using set_segments_dict by blast
  from v' have "get_segments v' (s # ss) = Some x" by (rule get_after_set)
  with v' d' show ?thesis
    by (simp add: dpath_get_def dpath_set_def sp del: set_segments.simps get_segments.simps)
qed

lemma dpath_set_frame:
  assumes "diverge (split_path k) (split_path k')"
  shows "dpath_get (dpath_set p k x) k' = dpath_get p k'"
proof (cases "set_segments (JDict p) (split_path k) x")
  case None
  then show ?thesis by (simp add: dpath_set_def)
next
  case (Some v')
  obtain s ss where sp: "split_path k = s # ss"
    using split_path_nonempty[of k] by (cases "split_path k") auto
  with Some obtain d' where d': "v' = JDict d'" using set_segments_dict by metis
  from set_segments_frame[OF Some assms] Some d' show ?thesis
    by (simp add: dpath_get_def dpath_set_def)
qed

lemma setitem_json_frame:
  "setitem_json v ks key x = Inr v' \<Longrightarrow> diverge (ks @ [key]) ts \<Longrightarrow>
   get_segments v' ts = get_segments v ts"
proof (induction v ks key x arbitrary: v' ts rule: setitem_json.induct)
  case (1 d key v)
  then show ?case by (cases ts) (auto simp: update_conv')
next
  case (2 d k ks key v)
  then show ?case
    by (cases ts) (auto simp: update_conv' split: option.splits sum.splits)
qed auto

lemma setitem_json_get:
  "setitem_json v ks key x = Inr v' \<Longrightarrow> get_segments v' (ks @ [key]) = Some x"
  by (induction v ks key x arbitrary: v' rule: setitem_json.induct)
     (auto simp: update_conv' split: option.splits sum.splits)

lemma setitem_path_frame:
  "setitem_path p ks key x = Inr p' \<Longrightarrow> diverge (ks @ [key]) ts \<Longrightarrow>
   get_segments (JDict p') ts = get_segments (JDict p) ts"
  using setitem_json_frame[of "JDict p" ks key x "JDict p'" ts]
  by (auto simp: setitem_path_def split: sum.splits json.splits)

lemma setitem_path_get:
  "setitem_path p ks key x = Inr p' \<Longrightarrow> get_segments (JDict p') (ks @ [key]) = Some x"
  using setitem_json_get[of "JDict p" ks key x "JDict p'"]
  by (auto simp: setitem_path_def split: sum.splits json.splits)

lemma delete_frame:
  "s \<noteq> k \<Longrightarrow> get_segments (JDict (AList.delete k d)) (s # ss) = get_segments (JDict d) (s # ss)"
  by simp



section \<open>The coupon answer "no"\<close>






section \<open>What a date answer stores\<close>

lemma lower_hyphen: "lower_char CHR ''-'' = CHR ''-''" by code_simp
lemma lower_slash: "lower_char CHR ''/'' = CHR ''/''" by code_simp
lemma hyphen_no_digit: "\<not> isdigit_char CHR ''-''" by code_simp

lemma py_split_no_sep: "sep \<notin> set s \<Longrightarrow> py_split sep s = [s]"
  by (induction s) auto

lemma greeting_no_hyphen:
  assumes "is_greeting user_message"
  shows "CHR ''-'' \<notin> set (py_replace CHR ''/'' CHR ''-'' (py_strip user_message))"
proof -
  have *: "c \<noteq> CHR ''-'' \<and> c \<noteq> CHR ''/''" if "lower_char c \<in> set ''hiello''" for c
    using that lower_hyphen lower_slash by auto
  from assms have "set (py_lower (py_strip user_message)) \<subseteq> set ''hiello''"
    by (auto simp: is_greeting_def)
  then have "\<forall>c \<in> set (py_strip user_message). lower_char c \<in> set ''hiello''"
    by (auto simp: py_lower_def)
  with * show ?thesis by (auto simp: py_replace_def)
qed

lemma greeting_is_no_date:
  "is_greeting user_message \<Longrightarrow>
   strptime_ymd (py_replace CHR ''/'' CHR ''-'' (py_strip user_message)) = None"
  by (simp add: strptime_ymd_def py_split_no_sep[OF greeting_no_hyphen])

lemma date_has_hyphen:
  assumes "strptime_ymd s = Some dt" shows "CHR ''-'' \<in> set s"
proof (rule ccontr)
  assume "CHR ''-'' \<notin> set s"
  then have "py_split CHR ''-'' s = [s]" by (rule py_split_no_sep)
  with assms show False by (simp add: strptime_ymd_def)
qed

lemma date_normalizes_to_itself:
  assumes "strptime_ymd s = Some dt"
    and "key = ''_internal/start_date'' \<or> key = ''_internal/end_date''"
  shows "normalize_answer key s = Inr (JStr s)"
proof -
  have h: "CHR ''-'' \<in> set s" using assms(1) by (rule date_has_hyphen)
  then have "\<not> py_isdigit s"
    using hyphen_no_digit by (auto simp: py_isdigit_def list_all_iff)
  moreover from h have "CHR ''-'' \<in> set (py_lower s)"
    using lower_hyphen by (force simp: py_lower_def)
  then have "py_lower s \<noteq> ''true''" "py_lower s \<noteq> ''false''" by auto
  ultimately show ?thesis using assms(2) by (auto simp: normalize_answer_def)
qed


lemma turn_persists_unfinished:
  assumes "answer_turn user_message (get_session session_id st) = Proceed p1"
    and "find_next_question_key p1 \<noteq> None"
  shows "collected_info (fst (run_travel_payload_agent user_message history session_id st) session_id)
           ''payload'' = Some p1"
proof -
  from assms(2) obtain key where k: "find_next_question_key p1 = Some key" by auto
  from find_next_in_map[OF k] assms(1) k show ?thesis
    by (auto simp: run_travel_payload_agent_def Let_def set_collected_info_def
        update_conversation_context_def)
qed

text \<open>
  Claim C5, as stated: the value stored for an accepted date answer is its normalized
  \<^verbatim>\<open>YYYY-MM-DD\<close> form. The answer \<^verbatim>\<open>2024-3-5\<close> is accepted by the validator and
  is stored as it is, which is not of the form \<^verbatim>\<open>YYYY-MM-DD\<close>.
\<close>

theorem stored_date_need_not_be_padded_counterexample:
  "strptime_ymd (py_replace CHR ''/'' CHR ''-'' (py_strip ''2024-3-5'')) = Some (2024, 3, 5)
   \<and> collected_info (fst (run_travel_payload_agent ''2024-3-5'' [] ''u''
          (example_store (Some get_payload_template) (Some ''_internal/start_date''))) ''u'') ''payload''
        = Some (dpath_set get_payload_template ''_internal/start_date'' (JStr ''2024-3-5''))
   \<and> dpath_get (dpath_set get_payload_template ''_internal/start_date'' (JStr ''2024-3-5''))
         ''_internal/start_date'' = Some (JStr ''2024-3-5'')
   \<and> \<not> is_yyyy_mm_dd ''2024-3-5''"
  by code_simp

text \<open>
  Claim C5, amended. For every answer to a date question that the validator accepts, on a
  payload that has the date field, the value stored at the field is the trimmed answer
  with every \<^verbatim>\<open>/\<close> replaced by \<^verbatim>\<open>-\<close>: the string the validator parsed, zero-padded
  only if the answer was. It is the payload the turn persists whenever a question remains
  to be asked. The answers \<^verbatim>\<open>2024-03-05\<close> and \<^verbatim>\<open>2024/03/05\<close> both store
  \<^verbatim>\<open>2024-03-05\<close>.
\<close>

theorem accepted_date_is_stored:
  assumes pending: "last_question_key (st session_id) = Some key"
    and date_key: "key = ''_internal/start_date'' \<or> key = ''_internal/end_date''"
    and accepted: "strptime_ymd (py_replace CHR ''/'' CHR ''-'' (py_strip user_message)) = Some dt"
    and has: "dpath_get (current_payload (st session_id)) key \<noteq> None"
  shows "\<exists>payload'.
           answer_turn user_message (get_session session_id st) = Proceed payload'
           \<and> dpath_get payload' key =
                 Some (JStr (py_replace CHR ''/'' CHR ''-'' (py_strip user_message)))
           \<and> (find_next_question_key payload' \<noteq> None \<longrightarrow>
                  collected_info
                    (fst (run_travel_payload_agent user_message history session_id st) session_id)
                    ''payload'' = Some payload')"
proof -
  let ?d = "py_replace CHR ''/'' CHR ''-'' (py_strip user_message)"
  let ?p1 = "dpath_set (current_payload (st session_id)) key (JStr ?d)"
  have ng: "\<not> is_greeting user_message"
    using accepted greeting_is_no_date by fastforce
  have norm: "normalize_answer key ?d = Inr (JStr ?d)"
    using accepted date_key by (rule date_normalizes_to_itself)
  have save: "save_answer key (JStr ?d) (current_payload (st session_id)) = ?p1"
    using date_key by (auto simp: save_answer_def)
  have turn: "answer_turn user_message (get_session session_id st) = Proceed ?p1"
    using pending ng date_key accepted
    by (auto simp: answer_turn_def get_session_def process_answer_def Let_def apply_answer_def
        norm save)
  moreover have "dpath_get ?p1 key = Some (JStr ?d)"
    using has by (rule dpath_get_after_set)
  moreover have "find_next_question_key ?p1 \<noteq> None \<longrightarrow>
      collected_info (fst (run_travel_payload_agent user_message history session_id st) session_id)
        ''payload'' = Some ?p1"
    using turn_persists_unfinished[OF turn] by blast
  ultimately show ?thesis by blast
qed

theorem accepted_date_is_stored_witness:
  "(\<exists>payload'.
      collected_info (fst (run_travel_payload_agent ''2024-03-05'' [] ''u''
          (example_store (Some get_payload_template) (Some ''_internal/start_date''))) ''u'') ''payload''
        = Some payload'
      \<and> dpath_get payload' ''_internal/start_date'' = Some (JStr ''2024-03-05''))
   \<and> (\<exists>payload'.
      collected_info (fst (run_travel_payload_agent ''2024/03/05'' [] ''u''
          (example_store (Some get_payload_template) (Some ''_internal/start_date''))) ''u'') ''payload''
        = Some payload'
      \<and> dpath_get payload' ''_internal/start_date'' = Some (JStr ''2024-03-05''))"
proof -
  let ?k = "''_internal/start_date''"
  let ?st = "example_store (Some get_payload_template) (Some ?k)"
  let ?p = "dpath_set get_payload_template ?k (JStr ''2024-03-05'')"
  have a: "last_question_key (?st ''u'') = Some ?k" by (simp add: example_store_def)
  have c: "dpath_get (current_payload (?st ''u'')) ?k \<noteq> None" by code_simp
  have b1: "strptime_ymd (py_replace CHR ''/'' CHR ''-'' (py_strip ''2024-03-05'')) = Some (2024, 3, 5)"
    by code_simp
  have b2: "strptime_ymd (py_replace CHR ''/'' CHR ''-'' (py_strip ''2024/03/05'')) = Some (2024, 3, 5)"
    by code_simp
  have r1: "py_replace CHR ''/'' CHR ''-'' (py_strip ''2024-03-05'') = ''2024-03-05''" by code_simp
  have r2: "py_replace CHR ''/'' CHR ''-'' (py_strip ''2024/03/05'') = ''2024-03-05''" by code_simp
  have t1: "answer_turn ''2024-03-05'' (get_session ''u'' ?st) = Proceed ?p" by code_simp
  have t2: "answer_turn ''2024/03/05'' (get_session ''u'' ?st) = Proceed ?p" by code_simp
  have n: "find_next_question_key ?p \<noteq> None" by code_simp
  have first: "\<exists>payload'.
      collected_info (fst (run_travel_payload_agent ''2024-03-05'' [] ''u'' ?st) ''u'') ''payload''
        = Some payload'
      \<and> dpath_get payload' ?k = Some (JStr ''2024-03-05'')"
    using accepted_date_is_stored [where st = ?st and session_id = "''u''" and key = ?k
        and user_message = "''2024-03-05''" and history = "[]", OF a _ b1 c] n
    unfolding r1 t1 by auto
  have second: "\<exists>payload'.
      collected_info (fst (run_travel_payload_agent ''2024/03/05'' [] ''u'' ?st) ''u'') ''payload''
        = Some payload'
      \<and> dpath_get payload' ?k = Some (JStr ''2024-03-05'')"
    using accepted_date_is_stored [where st = ?st and session_id = "''u''" and key = ?k
        and user_message = "''2024/03/05''" and history = "[]", OF a _ b2 c] n
    unfolding r2 t2 by auto
  from first second show ?thesis by blast
qed

section \<open>Day numbers grow with the calendar\<close>

lemma month_cases:
  "1 \<le> m \<Longrightarrow> m \<le> 12 \<Longrightarrow>
   m = 1 \<or> m = 2 \<or> m = 3 \<or> m = 4 \<or> m = 5 \<or> m = 6 \<or> m = 7 \<or> m = 8 \<or> m = 9 \<or> m = 10
   \<or> m = 11 \<or> m = (12::int)"
  by arith

lemma days_in_month_bounds: "28 \<le> days_in_month y m \<and> days_in_month y m \<le> 31"
  by (simp add: days_in_month_def)

lemma days_before_month_step:
  assumes "1 \<le> m" "m < 12"
  shows "days_before_month y (m + 1) = days_before_month y m + days_in_month y m"
proof -
  from assms have "m = 1 \<or> m = 2 \<or> m = 3 \<or> m = 4 \<or> m = 5 \<or> m = 6 \<or> m = 7 \<or> m = 8 \<or> m = 9
      \<or> m = 10 \<or> m = 11" by arith
  then show ?thesis
    by (elim disjE) (simp_all add: days_before_month_def days_in_month_def)
qed

lemma days_before_month_mono:
  assumes "1 \<le> m" "m < m'" "m' \<le> 12"
  shows "days_before_month y m + days_in_month y m \<le> days_before_month y m'"
proof -
  have "m + 1 \<le> m'" using assms by simp
  then show ?thesis using assms(3)
  proof (induction m' rule: int_ge_induct)
    case base
    then show ?case using assms(1) by (simp add: days_before_month_step)
  next
    case (step i)
    then have "days_before_month y (i + 1) = days_before_month y i + days_in_month y i"
      using assms(1) by (intro days_before_month_step) auto
    with step days_in_month_bounds[of y i] show ?case by simp
  qed
qed

lemma days_before_month_december:
  "days_before_month y 12 + 31 = (if is_leap y then 366 else 365)"
  by (simp add: days_before_month_def)

lemma days_before_month_nonneg: "1 \<le> m \<Longrightarrow> m \<le> 12 \<Longrightarrow> 0 \<le> days_before_month y m"
  by (drule (1) month_cases) (auto simp: days_before_month_def)

lemma div_pred:
  assumes "0 < (k::int)"
  shows "y div k = (y - 1) div k + (if y mod k = 0 then 1 else 0)"
proof (cases "y mod k = 0")
  case True
  have "y = k * (y div k)" using mult_div_mod_eq[of k y] True by simp
  then have "y - 1 = k * (y div k - 1) + (k - 1)"
    by (simp add: right_diff_distrib)
  then have "(y - 1) div k = y div k - 1"
    by (rule int_div_pos_eq[where r = "k - 1"]) (use assms in simp_all)
  with True show ?thesis by simp
next
  case False
  have r: "0 \<le> y mod k - 1" "y mod k - 1 < k"
    using assms False pos_mod_sign[of k y] pos_mod_bound[of k y] by linarith+
  have "y - 1 = k * (y div k) + (y mod k - 1)" by simp
  then have "(y - 1) div k = y div k"
    by (rule int_div_pos_eq[where r = "y mod k - 1"]) (use r in simp_all)
  with False show ?thesis by simp
qed

lemma leap_count:
  "(if y mod 4 = 0 then 1 else 0) - (if y mod 100 = 0 then 1 else 0) + (if y mod 400 = 0 then 1 else 0)
     = (if is_leap y then 1 else (0::int))"
proof -
  have d: "y mod 100 = 0" if "y mod 400 = 0"
  proof -
    from that have "400 dvd y" by (simp add: mod_eq_0_iff_dvd)
    moreover have "(100::int) dvd 400" by simp
    ultimately have "100 dvd y" using dvd_trans by blast
    then show ?thesis by simp
  qed
  have e: "y mod 4 = 0" if "y mod 100 = 0"
  proof -
    from that have "100 dvd y" by (simp add: mod_eq_0_iff_dvd)
    moreover have "(4::int) dvd 100" by simp
    ultimately have "4 dvd y" using dvd_trans by blast
    then show ?thesis by simp
  qed
  show ?thesis
  proof (cases "y mod 400 = 0")
    case True
    with d e show ?thesis by (simp add: is_leap_def)
  next
    case n400: False
    show ?thesis
    proof (cases "y mod 100 = 0")
      case True
      with n400 e show ?thesis by (simp add: is_leap_def)
    next
      case False
      with n400 show ?thesis by (simp add: is_leap_def)
    qed
  qed
qed

lemma days_before_year_step:
  "days_before_year (y + 1) = days_before_year y + (if is_leap y then 366 else 365)"
proof -
  define A where "A = (y - 1) div 4"
  define B where "B = (y - 1) div 100"
  define C where "C = (y - 1) div 400"
  define a :: int where "a = (if y mod 4 = 0 then 1 else 0)"
  define b :: int where "b = (if y mod 100 = 0 then 1 else 0)"
  define c :: int where "c = (if y mod 400 = 0 then 1 else 0)"
  define l :: int where "l = (if is_leap y then 1 else 0)"
  have a: "y div 4 = A + a" unfolding A_def a_def by (rule div_pred) simp
  have b: "y div 100 = B + b" unfolding B_def b_def by (rule div_pred) simp
  have c: "y div 400 = C + c" unfolding C_def c_def by (rule div_pred) simp
  have l: "a - b + c = l" unfolding a_def b_def c_def l_def by (rule leap_count)
  have "days_before_year (y + 1) = y * 365 + (A + a) - (B + b) + (C + c)"
    by (simp add: days_before_year_def a b c)
  also have "\<dots> = ((y - 1) * 365 + A - B + C) + (365 + (a - b + c))"
    by (simp add: algebra_simps)
  also have "(y - 1) * 365 + A - B + C = days_before_year y"
    by (simp add: days_before_year_def A_def B_def C_def Let_def)
  also have "365 + (a - b + c) = (if is_leap y then 366 else 365)"
    unfolding l by (simp add: l_def)
  finally show ?thesis .
qed

lemma days_before_year_mono: "y \<le> y' \<Longrightarrow> days_before_year y \<le> days_before_year y'"
proof (induction y' rule: int_ge_induct)
  case base
  show ?case by simp
next
  case (step i)
  then show ?case by (simp add: days_before_year_step)
qed

lemma toordinal_upper:
  assumes "1 \<le> m" "m \<le> 12" "d \<le> days_in_month y m"
  shows "toordinal (y, m, d) \<le> days_before_year (y + 1)"
proof -
  have "days_before_month y m + days_in_month y m \<le> days_before_month y 12 + 31"
  proof (cases "m = 12")
    case True
    then show ?thesis using days_in_month_bounds[of y 12] by simp
  next
    case False
    with assms have "days_before_month y m + days_in_month y m \<le> days_before_month y 12"
      by (intro days_before_month_mono) auto
    then show ?thesis by simp
  qed
  with assms(3) show ?thesis
    by (simp add: toordinal_def days_before_year_step days_before_month_december split: if_splits)
qed

lemma toordinal_strict_mono:
  assumes "valid_date a" "valid_date b" "date_less a b"
  shows "toordinal a < toordinal b"
proof -
  obtain y m d where a: "a = (y, m, d)" by (cases a)
  obtain y' m' d' where b: "b = (y', m', d')" by (cases b)
  from assms(1,2) have va: "1 \<le> m" "m \<le> 12" "1 \<le> d" "d \<le> days_in_month y m"
    and vb: "1 \<le> m'" "m' \<le> 12" "1 \<le> d'" "d' \<le> days_in_month y' m'"
    by (auto simp: valid_date_def a b)
  from assms(3) consider "y < y'" | "y = y'" "m < m'" | "y = y'" "m = m'" "d < d'"
    by (auto simp: date_less_def a b)
  then show ?thesis
  proof cases
    case 1
    have "toordinal a \<le> days_before_year (y + 1)"
      unfolding a using va(1,2,4) by (rule toordinal_upper)
    also have "\<dots> \<le> days_before_year y'" using 1 by (intro days_before_year_mono) simp
    also have "\<dots> < toordinal b"
      using days_before_month_nonneg[OF vb(1,2), of y'] vb(3) by (simp add: toordinal_def b)
    finally show ?thesis .
  next
    case 2
    have "days_before_month y m + days_in_month y m \<le> days_before_month y m'"
      using va(1) 2(2) vb(2) by (rule days_before_month_mono)
    with va(4) vb(3) 2(1) show ?thesis by (simp add: toordinal_def a b)
  next
    case 3
    then show ?thesis by (simp add: toordinal_def a b)
  qed
qed

lemma month_token_range: "month_token t \<Longrightarrow> 1 \<le> decimal_value t \<and> decimal_value t \<le> 12"
  by (simp add: month_token_def)

lemma day_value_positive: "day_value t = Some d \<Longrightarrow> 1 \<le> d"
  by (auto simp: day_value_def split: list.splits if_splits)

lemma strptime_valid: "strptime_ymd s = Some dt \<Longrightarrow> valid_date dt"
  by (auto simp: strptime_ymd_def valid_date_def dest: month_token_range day_value_positive
      split: list.splits if_splits option.splits)

section \<open>Finalizing a complete payload\<close>

lemma split_start: "split_path ''_internal/start_date'' = [''_internal'', ''start_date'']"
  by code_simp
lemma split_end: "split_path ''_internal/end_date'' = [''_internal'', ''end_date'']"
  by code_simp
lemma split_days: "split_path ''travel/number_of_days'' = [''travel'', ''number_of_days'']"
  by code_simp

lemma get_two_segments:
  "get_segments (JDict p) [a, b] = Some v \<Longrightarrow>
   \<exists>d. map_of p a = Some (JDict d) \<and> map_of d b = Some v"
  by (auto split: option.splits dest!: get_segments_child)

lemma date_nonempty: "strptime_ymd s = Some dt \<Longrightarrow> s \<noteq> []"
  using date_has_hyphen by fastforce

lemma finalize_with_dates:
  assumes complete: "find_next_question_key p = None"
    and s: "dpath_get p ''_internal/start_date'' = Some (JStr s)" "strptime_ymd s = Some ds"
    and e: "dpath_get p ''_internal/end_date'' = Some (JStr e)" "strptime_ymd e = Some de"
  shows "\<exists>d. map_of p ''travel'' = Some (JDict d) \<and>
           finalize_payload p =
             Inr (AList.delete ''_internal''
                    (AList.update ''travel''
                       (JDict (AList.update ''number_of_days''
                                 (JInt (max (toordinal de - toordinal ds + 1) 1)) d)) p))"
proof -
  obtain d where d: "map_of p ''travel'' = Some (JDict d)"
    using complete_has_travel[OF complete] by blast
  from s(1) obtain i where i: "map_of p ''_internal'' = Some (JDict i)"
      and ist: "map_of i ''start_date'' = Some (JStr s)"
    unfolding dpath_get_def split_start by (blast dest: get_two_segments)
  from e(1) i have ie: "map_of i ''end_date'' = Some (JStr e)"
    unfolding dpath_get_def split_end by (auto split: option.splits)
  have "finalize_payload p =
             Inr (AList.delete ''_internal''
                    (AList.update ''travel''
                       (JDict (AList.update ''number_of_days''
                                 (JInt (max (toordinal de - toordinal ds + 1) 1)) d)) p))"
    using date_nonempty[OF s(2)] date_nonempty[OF e(2)]
    by (simp add: finalize_payload_def Let_def i ist ie strptime_json_def s(2) e(2)
        setitem_travel_ok[OF d])
  with d show ?thesis by blast
qed

lemma finished_payload:
  fixes v :: json
  assumes d: "map_of p ''travel'' = Some (JDict d)"
    and final: "final = AList.delete ''_internal''
                    (AList.update ''travel'' (JDict (AList.update ''number_of_days'' v d)) p)"
  shows "''_internal'' \<notin> fst ` set final"
    and "dpath_get final ''travel/number_of_days'' = Some v"
  unfolding final
  by (simp_all add: delete_notin_dom dpath_get_def split_days update_conv')

lemma recorded_date_cases:
  "recorded_date v \<Longrightarrow> v = None \<or> v = Some JNull \<or> (\<exists>s dt. v = Some (JStr s) \<and> strptime_ymd s = Some dt)"
  by (cases v rule: recorded_date.cases) auto

lemma complete_dates:
  assumes "find_next_question_key p = None" and "dates_ok p"
  shows "\<exists>s ds e de.
           dpath_get p ''_internal/start_date'' = Some (JStr s) \<and> strptime_ymd s = Some ds
           \<and> dpath_get p ''_internal/end_date'' = Some (JStr e) \<and> strptime_ymd e = Some de"
proof -
  have "\<not> unanswered p ''_internal/start_date''" "\<not> unanswered p ''_internal/end_date''"
    using find_next_None_answered[OF assms(1)] by (simp_all add: question_keys)
  then show ?thesis
    using assms(2) unfolding dates_ok_def unanswered_def
    by (auto dest!: recorded_date_cases)
qed

section \<open>Answers keep the recorded dates valid\<close>

lemma set_missing:
  "get_segments v ss = None \<Longrightarrow> set_segments v ss x = None"
  by (induction v ss x rule: set_segments.induct) (auto split: option.splits)

lemma dpath_set_missing: "dpath_get p k = None \<Longrightarrow> dpath_set p k x = p"
  by (simp add: dpath_get_def dpath_set_def set_missing)

lemma setitem_travel_dates:
  assumes "setitem_path p (''travel'' # ks) key x = Inr p'"
  shows "dates_ok p' = dates_ok p"
proof -
  have "get_segments (JDict p') (''_internal'' # ts) = get_segments (JDict p) (''_internal'' # ts)" for ts
    using assms by (rule setitem_path_frame) simp
  then show ?thesis by (simp add: dates_ok_def dpath_get_def split_start split_end)
qed

lemma dpath_set_dates:
  assumes "diverge (split_path k) [''_internal'', ''start_date'']"
    and "diverge (split_path k) [''_internal'', ''end_date'']"
  shows "dates_ok (dpath_set p k x) = dates_ok p"
  using dpath_set_frame[of k "''_internal/start_date''" p x]
    dpath_set_frame[of k "''_internal/end_date''" p x] assms
  by (simp add: dates_ok_def split_start split_end)

lemma other_keys_diverge:
  "\<forall>key \<in> set (map fst get_question_map).
      key = ''_internal/start_date'' \<or> key = ''_internal/end_date'' \<or>
      (diverge (split_path key) [''_internal'', ''start_date'']
       \<and> diverge (split_path key) [''_internal'', ''end_date''])"
  by code_simp

lemma date_keys_diverge:
  "diverge (split_path ''_internal/start_date'') [''_internal'', ''end_date'']"
  "diverge (split_path ''_internal/end_date'') [''_internal'', ''start_date'']"
  by code_simp+


lemma save_count_dates:
  assumes "key = ''travel/number_of_travellers/adult'' \<or> key = ''travel/number_of_travellers/child''"
  shows "dates_ok (save_answer key a p) = dates_ok p"
proof -
  have in_keys: "key \<in> set [''travel/number_of_travellers/adult'', ''travel/number_of_travellers/child'']"
    using assms by auto
  define who where "who = (if key = ''travel/number_of_travellers/adult'' then ''adult'' else ''child'')"
  show ?thesis
  proof (cases "setitem_path p [''travel'', ''number_of_travellers''] who (JList [a])")
    case (Inl e)
    then show ?thesis unfolding save_answer_def who_def using in_keys by simp
  next
    case (Inr p1)
    then have d1: "dates_ok p1 = dates_ok p" by (rule setitem_travel_dates)
    have step: "dates_ok (case r of Inl e \<Rightarrow> q | Inr q' \<Rightarrow> q') = dates_ok q"
      if "\<And>q'. r = Inr q' \<Longrightarrow> dates_ok q' = dates_ok q" for r :: "pyerr + dict" and q
      using that by (cases r) auto
    have s4: "dates_ok (case setitem_path q [''travel''] k v of Inl e \<Rightarrow> q | Inr q' \<Rightarrow> q') = dates_ok q"
      for q k v by (rule step) (rule setitem_travel_dates)
    have "dates_ok (save_answer key a p) = dates_ok p1"
      unfolding save_answer_def who_def[symmetric] using in_keys Inr
      by (simp add: s4 split: sum.split) (auto dest!: setitem_travel_dates simp: s4)
    with d1 show ?thesis by simp
  qed
qed
lemma save_date_dates:
  assumes key: "key = ''_internal/start_date'' \<or> key = ''_internal/end_date''"
    and a: "strptime_ymd s = Some dt" and ok: "dates_ok p"
  shows "dates_ok (save_answer key (JStr s) p)"
proof -
  have sv: "save_answer key (JStr s) p = dpath_set p key (JStr s)"
    using key by (auto simp: save_answer_def)
  show ?thesis
  proof (cases "dpath_get p key = None")
    case True
    then show ?thesis using ok by (simp add: sv dpath_set_missing)
  next
    case False
    then have here: "dpath_get (dpath_set p key (JStr s)) key = Some (JStr s)"
      by (rule dpath_get_after_set)
    from key show ?thesis
    proof
      assume k: "key = ''_internal/start_date''"
      have "dpath_get (dpath_set p key (JStr s)) ''_internal/end_date'' = dpath_get p ''_internal/end_date''"
        unfolding k by (rule dpath_set_frame) (simp add: split_end date_keys_diverge)
      with here ok a show ?thesis unfolding sv dates_ok_def by (simp add: k)
    next
      assume k: "key = ''_internal/end_date''"
      have "dpath_get (dpath_set p key (JStr s)) ''_internal/start_date'' = dpath_get p ''_internal/start_date''"
        unfolding k by (rule dpath_set_frame) (simp add: split_start date_keys_diverge)
      with here ok a show ?thesis unfolding sv dates_ok_def by (simp add: k)
    qed
  qed
qed


lemma save_answer_other:
  assumes "key \<noteq> ''travel/number_of_travellers/adult''"
    and "key \<noteq> ''travel/number_of_travellers/child''"
  shows "save_answer key a p =
           (if key = ''travel/country_code'' then
              (case a of JStr s \<Rightarrow> dpath_set p key (JList [JStr (py_upper s)]) | _ \<Rightarrow> p)
            else dpath_set p key a)"
  using assms by (simp add: save_answer_def)

lemma save_other_dates:
  assumes "key \<in> set (map fst get_question_map)"
    and "key \<noteq> ''_internal/start_date''" "key \<noteq> ''_internal/end_date''"
  shows "dates_ok (save_answer key a p) = dates_ok p"
proof (cases "key = ''travel/number_of_travellers/adult'' \<or> key = ''travel/number_of_travellers/child''")
  case True
  then show ?thesis by (rule save_count_dates)
next
  case False
  from other_keys_diverge assms(1)
  have "key = ''_internal/start_date'' \<or> key = ''_internal/end_date'' \<or>
      (diverge (split_path key) [''_internal'', ''start_date'']
       \<and> diverge (split_path key) [''_internal'', ''end_date''])" by (rule bspec)
  with assms(2,3)
  have dv: "diverge (split_path key) [''_internal'', ''start_date'']"
      "diverge (split_path key) [''_internal'', ''end_date'']" by simp_all
  from False have nk: "key \<noteq> ''travel/number_of_travellers/adult''"
      "key \<noteq> ''travel/number_of_travellers/child''" by simp_all
  have sa: "save_answer key a p =
           (if key = ''travel/country_code'' then
              (case a of JStr s \<Rightarrow> dpath_set p key (JList [JStr (py_upper s)]) | _ \<Rightarrow> p)
            else dpath_set p key a)"
    by (rule save_answer_other[OF nk])
  show ?thesis
  proof (cases "key = ''travel/country_code''")
    case True
    have "save_answer key a p =
            (case a of JStr s \<Rightarrow> dpath_set p key (JList [JStr (py_upper s)]) | _ \<Rightarrow> p)"
      unfolding sa by (rule if_P[OF True])
    then show ?thesis
      by (cases a) (simp_all add: dpath_set_dates[OF dv])
  next
    case False
    have "save_answer key a p = dpath_set p key a"
      unfolding sa by (rule if_not_P[OF False])
    then show ?thesis
      by (simp add: dpath_set_dates[OF dv])
  qed
qed


lemma process_answer_dates:
  assumes "key \<in> set (map fst get_question_map)" and "dates_ok p"
  shows "(\<exists>out. process_answer key user_message p = ReAsk out)
         \<or> (\<exists>p1. process_answer key user_message p = Proceed p1 \<and> dates_ok p1)"
proof (cases "key = ''_internal/start_date'' \<or> key = ''_internal/end_date''")
  case True
  let ?d = "py_replace CHR ''/'' CHR ''-'' (py_strip user_message)"
  have dk: "key \<in> set [''_internal/start_date'', ''_internal/end_date'']" using True by auto
  obtain q where q: "map_of get_question_map key = Some q"
    using True by (auto simp: get_question_map_def)
  show ?thesis
  proof (cases "strptime_ymd ?d")
    case None
    then show ?thesis
      unfolding process_answer_def Let_def using dk q by simp
  next
    case (Some dt)
    have n: "normalize_answer key ?d = Inr (JStr ?d)"
      using Some True by (rule date_normalizes_to_itself)
    have "dates_ok (save_answer key (JStr ?d) p)" using True Some assms(2) by (rule save_date_dates)
    then show ?thesis
      unfolding process_answer_def Let_def apply_answer_def using dk Some n by simp
  qed
next
  case False
  then have dk: "key \<notin> set [''_internal/start_date'', ''_internal/end_date'']" by auto
  have "dates_ok (save_answer key a p)" for a
    using save_other_dates[OF assms(1), of a p] False assms(2) by simp
  then have "dates_ok (apply_answer key a p)" for a
    using assms(2) by (simp add: apply_answer_def split: sum.splits)
  then show ?thesis
    unfolding process_answer_def Let_def using dk by simp
qed

lemma answer_turn_ok:
  assumes "session_ok session"
  shows "(\<exists>out. answer_turn user_message session = ReAsk out)
         \<or> (\<exists>p1. answer_turn user_message session = Proceed p1 \<and> dates_ok p1)"
proof (cases "last_question_key session")
  case None
  with assms show ?thesis by (simp add: answer_turn_def session_ok_def)
next
  case (Some key)
  with assms have k: "key \<in> set (map fst get_question_map)"
    and d: "dates_ok (current_payload session)"
    by (simp_all add: session_ok_def pending_ok_def)
  show ?thesis
    using process_answer_dates[OF k d, of user_message] d Some
    by (auto simp: answer_turn_def)
qed

lemma internal_deleted:
  "dpath_get (AList.delete ''_internal'' p) ''_internal/start_date'' = None"
  "dpath_get (AList.delete ''_internal'' p) ''_internal/end_date'' = None"
  by (simp_all add: dpath_get_def split_start split_end delete_conv')

lemma finish_ok:
  assumes complete: "find_next_question_key p = None" and d: "dates_ok p"
  shows "\<exists>final. finalize_payload p = Inr final \<and> ''_internal'' \<notin> fst ` set final
           \<and> dates_ok final"
proof -
  obtain s ds e de where
    "dpath_get p ''_internal/start_date'' = Some (JStr s)" "strptime_ymd s = Some ds"
    "dpath_get p ''_internal/end_date'' = Some (JStr e)" "strptime_ymd e = Some de"
    using complete_dates[OF complete d] by blast
  from finalize_with_dates[OF complete this] obtain t where
    f: "finalize_payload p = Inr (AList.delete ''_internal''
          (AList.update ''travel'' (JDict (AList.update ''number_of_days''
              (JInt (max (toordinal de - toordinal ds + 1) 1)) t)) p))"
    by blast
  then show ?thesis
    by (simp add: delete_notin_dom dates_ok_def internal_deleted)
qed

section \<open>The finalization turn\<close>

lemma finish_collection_result:
  assumes "finalize_payload p = Inr final" and "\<not> json_dumps_fails (JDict final)"
  shows "finish_collection session_id p st =
           (update_conversation_context session_id None
              (set_stage session_id ''quote_generation''
                 (set_collected_info session_id ''payload'' final st)),
            Inr ''Thank you, I have all the information. Generating your quote now...'')"
  using assms by (simp add: finish_collection_def Let_def del: json_dumps_fails.simps)

lemma finish_collection_raises:
  assumes "finalize_payload p = Inr final" and "json_dumps_fails (JDict final)"
  shows "finish_collection session_id p st =
           (set_collected_info session_id ''payload'' final st, Inl ValueError)"
  using assms by (simp add: finish_collection_def Let_def del: json_dumps_fails.simps)

lemma finish_collection_persists:
  assumes "finalize_payload p = Inr final"
  shows "collected_info (fst (finish_collection session_id p st) session_id) ''payload'' = Some final"
  using assms
  by (simp add: finish_collection_def Let_def update_conversation_context_def set_stage_def
      set_collected_info_def del: json_dumps_fails.simps)

lemma finished_session:
  assumes "st' = update_conversation_context session_id None
              (set_stage session_id ''quote_generation''
                 (set_collected_info session_id ''payload'' final st))"
  shows "collected_info (st' session_id) ''payload'' = Some final"
    and "last_question_key (st' session_id) = None"
    and "stage (st' session_id) = ''quote_generation''"
  unfolding assms
  by (simp_all add: update_conversation_context_def set_stage_def set_collected_info_def)

lemma run_complete:
  assumes turn: "answer_turn user_message (get_session session_id st) = Proceed payload"
    and complete: "find_next_question_key payload = None"
  shows "run_travel_payload_agent user_message history session_id st =
           finish_collection session_id payload
             (set_collected_info session_id ''payload'' payload st)"
  using assms by (simp add: run_travel_payload_agent_def Let_def)

text \<open>
  Every turn of the agent and of the orchestrator keeps a session well-formed, and a
  greeting makes it so: the sessions of a conversation are well-formed from its first
  greeting on.
\<close>

lemma template_dates_ok: "dates_ok get_payload_template"
  by code_simp

lemma fresh_session_ok:
  assumes "collected_info session ''payload'' = None" and "last_question_key session = None"
  shows "session_ok session"
  using assms template_dates_ok
  by (simp add: session_ok_def pending_ok_def current_payload_def)

lemma session_ok_fields:
  "session_ok s \<longleftrightarrow> pending_ok (last_question_key s) \<and> dates_ok (current_payload s)"
  by (simp add: session_ok_def)

lemma stored_payload:
  "current_payload (get_session session_id (set_collected_info session_id ''payload'' p st)) = p"
  by (simp add: current_payload_def get_session_def set_collected_info_def)

lemma run_keeps_session_ok:
  assumes ok: "session_ok (get_session session_id st)"
  shows "session_ok (get_session session_id
           (fst (run_travel_payload_agent user_message history session_id st)))"
proof -
  from answer_turn_ok[OF ok, of user_message]
  consider out where "answer_turn user_message (get_session session_id st) = ReAsk out"
    | p1 where "answer_turn user_message (get_session session_id st) = Proceed p1" "dates_ok p1"
    by blast
  then show ?thesis
  proof cases
    case 1
    with ok show ?thesis by (simp add: run_travel_payload_agent_def)
  next
    case 2
    show ?thesis
    proof (cases "find_next_question_key p1")
      case None
      from finish_ok[OF None 2(2)] obtain final where
        f: "finalize_payload p1 = Inr final" and d: "dates_ok final" by blast
      show ?thesis
      proof (cases "json_dumps_fails (JDict final)")
        case True
        show ?thesis
          unfolding run_complete[OF 2(1) None] finish_collection_raises[OF f True]
          using d ok
          by (simp add: session_ok_def pending_ok_def current_payload_def get_session_def
              set_collected_info_def)
      next
        case False
        show ?thesis
          unfolding run_complete[OF 2(1) None] finish_collection_result[OF f False]
          using d
          by (simp add: session_ok_def pending_ok_def current_payload_def get_session_def
              update_conversation_context_def set_stage_def set_collected_info_def)
      qed
    next
      case (Some key)
      from find_next_in_map[OF Some] obtain q where
        q: "map_of get_question_map key = Some q" and ne: "key \<noteq> []" by blast
      have k: "key \<in> set (map fst get_question_map)"
        using Some unfolding find_next_question_key_def by (rule find_next_loop_in_keys)
      have "run_travel_payload_agent user_message history session_id st =
              (update_conversation_context session_id (Some key)
                 (set_collected_info session_id ''payload'' p1 st), Inr q)"
        using 2(1) Some q ne by (simp add: run_travel_payload_agent_def Let_def)
      then show ?thesis
        using 2(2) k
        by (simp add: session_ok_def pending_ok_def current_payload_def get_session_def
            update_conversation_context_def set_collected_info_def)
    qed
  qed
qed

lemma reset_session_ok:
  "session_ok (get_session session_id
     (set_stage session_id name (clear_session_for_global_reset session_id st)))"
  using template_dates_ok
  by (simp add: session_ok_def pending_ok_def current_payload_def get_session_def
      set_stage_def clear_session_for_global_reset_def)

lemma stage_keeps_session_ok:
  "session_ok (get_session session_id (set_stage session_id name st))
     = session_ok (get_session session_id st)"
  by (simp add: session_ok_def current_payload_def get_session_def set_stage_def)

lemma history_keeps_session_ok:
  "session_ok (get_session session_id (update_session session_id m r st))
     = session_ok (get_session session_id st)"
  by (simp add: session_ok_def current_payload_def get_session_def update_session_def)

lemma collection_turn_keeps_session_ok:
  assumes "session_ok (get_session session_id st)"
  shows "session_ok (get_session session_id (fst (collection_turn user_message history session_id st)))"
  using run_keeps_session_ok[OF assms, of user_message history]
  by (cases "run_travel_payload_agent user_message history session_id st")
     (auto simp: collection_turn_def history_keeps_session_ok split: sum.splits)

lemma quote_keeps_session_ok:
  assumes "session_ok (get_session session_id st)"
  shows "session_ok (get_session session_id (fst (run_quote_generation rt api session_id st)))"
  using assms
  by (auto simp: run_quote_generation_def Let_def stage_keeps_session_ok
      split: option.splits sum.splits quote_outcome.splits)

lemma orchestrate_chat_keeps_session_ok:
  assumes "session_ok (get_session session_id st) \<or> is_greeting user_message"
  shows "session_ok (get_session session_id
           (fst (orchestrate_chat rt api user_message session_id st)))"
proof (cases "is_greeting user_message")
  case True
  then show ?thesis
    by (simp add: orchestrate_chat_def collection_turn_keeps_session_ok reset_session_ok)
next
  case False
  with assms have ok: "session_ok (get_session session_id st)" by simp
  have q: "session_ok (get_session session_id x1)"
    if "run_quote_generation rt api session_id st = (x1, x2)" for x1 x2
    using quote_keeps_session_ok[OF ok, of rt api] that by simp
  show ?thesis
    using False ok q
    by (auto simp: orchestrate_chat_def Let_def collection_turn_keeps_session_ok
        history_keeps_session_ok stage_keeps_session_ok
        split: prod.splits)
qed

text \<open>
  Claim C3. On the finalization turn, with the recorded start date \<open>s\<close> and end date
  \<open>e\<close> (strings the date parser accepts), the persisted payload holds at
  \<^verbatim>\<open>travel/number_of_days\<close> the maximum of \<open>(e - s).days + 1\<close> and \<open>1\<close>; the value
  is at least \<open>1\<close>, and it is \<open>1\<close> whenever \<open>e\<close> is earlier in the calendar than
  \<open>s\<close>. From 2024-03-01 to 2024-03-05 it is 5.
\<close>

theorem number_of_days_is_inclusive_count:
  assumes turn: "answer_turn user_message (get_session session_id st) = Proceed payload"
    and complete: "find_next_question_key payload = None"
    and s: "dpath_get payload ''_internal/start_date'' = Some (JStr s)" "strptime_ymd s = Some ds"
    and e: "dpath_get payload ''_internal/end_date'' = Some (JStr e)" "strptime_ymd e = Some de"
  shows "\<exists>final.
           collected_info (fst (run_travel_payload_agent user_message history session_id st) session_id)
             ''payload'' = Some final
           \<and> dpath_get final ''travel/number_of_days'' =
                 Some (JInt (max (toordinal de - toordinal ds + 1) 1))
           \<and> 1 \<le> max (toordinal de - toordinal ds + 1) 1
           \<and> (date_less de ds \<longrightarrow> dpath_get final ''travel/number_of_days'' = Some (JInt 1))"
proof -
  let ?n = "max (toordinal de - toordinal ds + 1) 1"
  from finalize_with_dates[OF complete s e] obtain t where
    t: "map_of payload ''travel'' = Some (JDict t)" and
    f: "finalize_payload payload = Inr (AList.delete ''_internal''
          (AList.update ''travel'' (JDict (AList.update ''number_of_days'' (JInt ?n) t)) payload))"
    by blast
  let ?final = "AList.delete ''_internal''
          (AList.update ''travel'' (JDict (AList.update ''number_of_days'' (JInt ?n) t)) payload)"
  have stored: "collected_info (fst (run_travel_payload_agent user_message history session_id st) session_id)
             ''payload'' = Some ?final"
    unfolding run_complete[OF turn complete] using f by (rule finish_collection_persists)
  have days: "dpath_get ?final ''travel/number_of_days'' = Some (JInt ?n)"
    using t by (rule finished_payload(2)) (rule refl)
  have inverted: "?n = 1" if "date_less de ds"
  proof -
    have "toordinal de < toordinal ds"
      using strptime_valid[OF e(2)] strptime_valid[OF s(2)] that by (rule toordinal_strict_mono)
    then show ?thesis by simp
  qed
  from stored days inverted show ?thesis by auto
qed

theorem number_of_days_is_inclusive_count_witness:
  "(\<exists>final.
      collected_info (fst (run_travel_payload_agent ''no'' [] ''u''
          (example_store (Some (example_payload JNull)) (Some ''promotion/coupon_code''))) ''u'')
        ''payload'' = Some final
      \<and> dpath_get final ''travel/number_of_days'' = Some (JInt 5))
   \<and> (\<exists>final.
      collected_info (fst (run_travel_payload_agent ''no'' [] ''u''
          (example_store
             (Some (dpath_set (dpath_set (example_payload JNull)
                      ''_internal/start_date'' (JStr ''2024-03-05''))
                      ''_internal/end_date'' (JStr ''2024-03-01'')))
             (Some ''promotion/coupon_code''))) ''u'')
        ''payload'' = Some final
      \<and> dpath_get final ''travel/number_of_days'' = Some (JInt 1))"
proof -
  let ?k = "''promotion/coupon_code''"
  let ?q1 = "example_payload JNull"
  let ?q2 = "dpath_set (dpath_set (example_payload JNull)
                      ''_internal/start_date'' (JStr ''2024-03-05''))
                      ''_internal/end_date'' (JStr ''2024-03-01'')"
  let ?p1 = "dpath_set ?q1 ?k (JStr [])"
  let ?p2 = "dpath_set ?q2 ?k (JStr [])"
  have t1: "answer_turn ''no'' (get_session ''u'' (example_store (Some ?q1) (Some ?k))) = Proceed ?p1"
    by code_simp
  have t2: "answer_turn ''no'' (get_session ''u'' (example_store (Some ?q2) (Some ?k))) = Proceed ?p2"
    by code_simp
  have c1: "find_next_question_key ?p1 = None" by code_simp
  have c2: "find_next_question_key ?p2 = None" by code_simp
  have s1: "dpath_get ?p1 ''_internal/start_date'' = Some (JStr ''2024-03-01'')" by code_simp
  have e1: "dpath_get ?p1 ''_internal/end_date'' = Some (JStr ''2024-03-05'')" by code_simp
  have s2: "dpath_get ?p2 ''_internal/start_date'' = Some (JStr ''2024-03-05'')" by code_simp
  have e2: "dpath_get ?p2 ''_internal/end_date'' = Some (JStr ''2024-03-01'')" by code_simp
  have d1: "strptime_ymd ''2024-03-01'' = Some (2024, 3, 1)" by code_simp
  have d5: "strptime_ymd ''2024-03-05'' = Some (2024, 3, 5)" by code_simp
  have n: "max (toordinal (2024, 3, 5) - toordinal (2024, 3, 1) + 1) 1 = 5" by code_simp
  have l: "date_less (2024, 3, 1) (2024, 3, 5)" by code_simp
  have first: "\<exists>final.
      collected_info (fst (run_travel_payload_agent ''no'' [] ''u''
          (example_store (Some ?q1) (Some ?k))) ''u'') ''payload'' = Some final
      \<and> dpath_get final ''travel/number_of_days'' = Some (JInt 5)"
    using number_of_days_is_inclusive_count [OF t1 c1 s1 d1 e1 d5, of "[]"] unfolding n by blast
  have second: "\<exists>final.
      collected_info (fst (run_travel_payload_agent ''no'' [] ''u''
          (example_store (Some ?q2) (Some ?k))) ''u'') ''payload'' = Some final
      \<and> dpath_get final ''travel/number_of_days'' = Some (JInt 1)"
    using number_of_days_is_inclusive_count [OF t2 c2 s2 d5 e2 d1, of "[]"] l by blast
  from first second show ?thesis by blast
qed

section \<open>Traveller counts and the fields derived from them\<close>

lemma split_adult: "split_path ''travel/number_of_travellers/adult'' = [''travel'', ''number_of_travellers'', ''adult'']"
  by code_simp
lemma split_child: "split_path ''travel/number_of_travellers/child'' = [''travel'', ''number_of_travellers'', ''child'']"
  by code_simp
lemma split_total: "split_path ''travel/number_of_travellers/total'' = [''travel'', ''number_of_travellers'', ''total'']"
  by code_simp
lemma split_with_children: "split_path ''travel/with_children'' = [''travel'', ''with_children'']"
  by code_simp
lemma split_with_group: "split_path ''travel/with_group_of_adults'' = [''travel'', ''with_group_of_adults'']"
  by code_simp

lemmas count_paths = split_adult split_child split_total split_with_children split_with_group













lemma too_long_count_is_not_applied:
  assumes "py_isdigit answer" and "max_str_digits < length answer"
    and "key = ''travel/number_of_travellers/adult'' \<or> key = ''travel/number_of_travellers/child''"
    and "py_lower answer \<notin> set [''true'', ''false'']"
  shows "apply_answer key answer payload = payload"
  using assms by (auto simp: apply_answer_def normalize_answer_def py_int_def)





section \<open>A greeting starts the conversation over\<close>

lemma policy_question:
  "map_of get_question_map ''travel/policy_type'' =
     Some ''To start, what is the policy type? (Enter 'S' for Single Trip or 'A' for Annual)''"
  by code_simp

lemma run_on_reset:
  assumes st0: "st0 = set_stage session_id ''payload_collection''
                    (clear_session_for_global_reset session_id st)"
  shows "run_travel_payload_agent user_message history session_id st0 =
           (update_conversation_context session_id (Some ''travel/policy_type'')
              (set_collected_info session_id ''payload'' get_payload_template st0),
            Inr ''To start, what is the policy type? (Enter 'S' for Single Trip or 'A' for Annual)'')"
proof -
  have "answer_turn user_message (get_session session_id st0) = Proceed get_payload_template"
    by (simp add: st0 answer_turn_def get_session_def current_payload_def set_stage_def
        clear_session_for_global_reset_def)
  then show ?thesis
    by (simp add: run_travel_payload_agent_def Let_def template_first policy_question)
qed

text \<open>
  Claim C8. For every store and session id, when the trimmed, lower-cased message is
  \<^verbatim>\<open>hi\<close> or \<^verbatim>\<open>hello\<close>, \<open>orchestrate_chat\<close> leaves the session with the template
  as its collected payload, the stage \<^verbatim>\<open>payload_collection\<close> and the policy-type
  question pending, and replies with that question, the first prompt of the question map.
\<close>

theorem greeting_starts_over:
  assumes "is_greeting user_message"
  shows "\<exists>st'.
           orchestrate_chat rt api user_message session_id st =
             (st', ''To start, what is the policy type? (Enter 'S' for Single Trip or 'A' for Annual)'')
           \<and> collected_info (st' session_id) ''payload'' = Some get_payload_template
           \<and> stage (st' session_id) = ''payload_collection''
           \<and> last_question_key (st' session_id) = Some ''travel/policy_type''"
proof -
  let ?q = "''To start, what is the policy type? (Enter 'S' for Single Trip or 'A' for Annual)''"
  define st0 where "st0 = set_stage session_id ''payload_collection''
                    (clear_session_for_global_reset session_id st)"
  define st2 where "st2 = update_session session_id user_message ?q
       (update_conversation_context session_id (Some ''travel/policy_type'')
          (set_collected_info session_id ''payload'' get_payload_template st0))"
  have o: "orchestrate_chat rt api user_message session_id st =
             collection_turn user_message [] session_id st0"
    using assms by (simp add: orchestrate_chat_def st0_def)
  have c: "collection_turn user_message [] session_id st0 = (st2, ?q)"
    unfolding collection_turn_def run_on_reset[OF st0_def] st2_def by simp
  have oc: "orchestrate_chat rt api user_message session_id st = (st2, ?q)"
    using o c by (rule trans)
  have f: "collected_info (st2 session_id) ''payload'' = Some get_payload_template"
    "stage (st2 session_id) = ''payload_collection''"
    "last_question_key (st2 session_id) = Some ''travel/policy_type''"
    by (simp_all add: st2_def st0_def update_session_def update_conversation_context_def
        set_collected_info_def set_stage_def clear_session_for_global_reset_def)
  show ?thesis
    by (intro exI[of _ st2] conjI) (rule oc f)+
qed

theorem greeting_starts_over_witness:
  "\<exists>st'.
      orchestrate_chat example_runtime (example_api RNull) '' Hello '' ''u''
          (example_store (Some (example_payload JNull)) (Some ''promotion/coupon_code'')) =
        (st', ''To start, what is the policy type? (Enter 'S' for Single Trip or 'A' for Annual)'')
      \<and> collected_info (st' ''u'') ''payload'' = Some get_payload_template
      \<and> stage (st' ''u'') = ''payload_collection''
      \<and> last_question_key (st' ''u'') = Some ''travel/policy_type''"
proof -
  have g: "is_greeting '' Hello ''" by code_simp
  show ?thesis using greeting_starts_over [OF g] .
qed

section \<open>The price of a quote\<close>

lemma map_of_nonempty: "map_of d k = Some v \<Longrightarrow> d \<noteq> []"
  by auto

lemma price_str_by_entry:
  assumes "quote_response = RDict body"
  shows "price_str rt quote_response (JStr plan) =
           (case premium_entry quote_response plan of
              None \<Rightarrow> Inr price_not_available
            | Some v \<Rightarrow>
                (case py_float rt v of
                   Inr x \<Rightarrow> Inr (''S$'' @ format_2f rt x)
                 | Inl e \<Rightarrow> if e = ValueError \<or> e = TypeError
                            then Inr price_not_available else Inl e))"
proof -
  have none: "py_float rt RNull = Inl TypeError" by (simp add: py_float_def)
  show ?thesis
    unfolding assms price_str_def premium_entry_def rdict_get_def
    by (auto simp: none dest: map_of_nonempty
        split: option.splits rjson.splits sum.splits)
qed


lemma quote_body_success:
  assumes resp: "quote_response = RDict body"
    and success: "map_of body ''success'' = Some (RStr ''ok'') \<or> map_of body ''success'' = Some (RStr ''true'')"
    and plan: "py_get (case map_of final_payload ''travel'' of None \<Rightarrow> JDict [] | Some t \<Rightarrow> t)
                 ''plan'' (JStr ''basic'') = Inr (JStr plan)"
  shows "quote_body rt quote_response final_payload =
           (case price_str rt quote_response (JStr plan) of
              Inl e \<Rightarrow> Inl e
            | Inr price \<Rightarrow>
                Inr (Quoted (''Your quote for the **'' @ py_capitalize plan
                       @ '' Plan** has been generated. The premium is **'' @ price @ ''**.'')))"
proof -
  from success have "rget quote_response ''success'' RNull = Inr (RStr ''ok'')
      \<or> rget quote_response ''success'' RNull = Inr (RStr ''true'')"
    by (auto simp: resp)
  then show ?thesis
    by (auto simp: quote_body_def plan split: sum.splits)
qed

lemma quote_sentinel:
  assumes payload: "get_collected_info session_id st ''payload'' = Some final_payload"
      "final_payload \<noteq> []"
    and resp: "api final_payload = RDict body"
    and success: "map_of body ''success'' = Some (RStr ''ok'') \<or> map_of body ''success'' = Some (RStr ''true'')"
    and plan: "py_get (case map_of final_payload ''travel'' of None \<Rightarrow> JDict [] | Some t \<Rightarrow> t)
                 ''plan'' (JStr ''basic'') = Inr (JStr plan)"
    and absent: "premium_entry (api final_payload) plan = None
        \<or> (\<exists>v. premium_entry (api final_payload) plan = Some v
              \<and> (py_float rt v = Inl ValueError \<or> py_float rt v = Inl TypeError))"
  shows "run_quote_generation rt api session_id st =
           (set_stage session_id ''initial'' st,
            ''Your quote for the **'' @ py_capitalize plan
              @ '' Plan** has been generated. The premium is **'' @ price_not_available @ ''**.'')"
proof -
  have "price_str rt (api final_payload) (JStr plan) = Inr price_not_available"
    using absent by (auto simp: price_str_by_entry[OF resp])
  then have "quote_body rt (api final_payload) final_payload =
      Inr (Quoted (''Your quote for the **'' @ py_capitalize plan
             @ '' Plan** has been generated. The premium is **'' @ price_not_available @ ''**.''))"
    by (simp add: quote_body_success[OF resp success plan])
  then show ?thesis
    using payload by (simp add: run_quote_generation_def Let_def)
qed

lemma quote_overflow:
  assumes payload: "get_collected_info session_id st ''payload'' = Some final_payload"
      "final_payload \<noteq> []"
    and resp: "api final_payload = RDict body"
    and success: "map_of body ''success'' = Some (RStr ''ok'') \<or> map_of body ''success'' = Some (RStr ''true'')"
    and plan: "py_get (case map_of final_payload ''travel'' of None \<Rightarrow> JDict [] | Some t \<Rightarrow> t)
                 ''plan'' (JStr ''basic'') = Inr (JStr plan)"
    and huge: "premium_entry (api final_payload) plan = Some (RInt n)" "int_too_large n"
  shows "run_quote_generation rt api session_id st =
           (set_stage session_id ''initial'' st,
            ''I'm sorry, I ran into an error while generating your quote.'')"
proof -
  have "py_float rt (RInt n) = Inl OverflowError" using huge(2) by (simp add: py_float_def)
  then have "price_str rt (api final_payload) (JStr plan) = Inl OverflowError"
    using huge(1) by (simp add: price_str_by_entry[OF resp])
  then have "quote_body rt (api final_payload) final_payload = Inl OverflowError"
    by (simp add: quote_body_success[OF resp success plan])
  then show ?thesis
    using payload by (simp add: run_quote_generation_def Let_def)
qed

text \<open>
  Claim C9 says that a successful response without a formattable premium makes the
  message report "Price not available" rather than the operation fail. The code does so
  when a level of the response is missing or is no dict and when \<^verbatim>\<open>float\<close> refuses the
  premium with \<^verbatim>\<open>ValueError\<close> or \<^verbatim>\<open>TypeError\<close>. An integer premium too large for
  a float raises \<^verbatim>\<open>OverflowError\<close>, which the \<^verbatim>\<open>except\<close> around the formatting
  does not catch: for the premium \<open>10 ^ 400\<close> the function returns its general error
  message and resets the stage.
\<close>

theorem huge_premium_is_not_reported_as_unavailable:
  "premium_entry (huge_premium_response :: 'f rjson) ''basic'' = Some (RInt (10 ^ 400))
   \<and> py_float (rt :: 'f runtime) (RInt (10 ^ 400)) = Inl OverflowError
   \<and> run_quote_generation rt (example_api huge_premium_response) ''u''
        (example_store (Some (example_payload (JStr []))) None) =
       (set_stage ''u'' ''initial'' (example_store (Some (example_payload (JStr []))) None),
        ''I'm sorry, I ran into an error while generating your quote.'')"
proof (intro conjI)
  let ?st = "example_store (Some (example_payload (JStr []))) None"
  have low: "py_lower ''basic'' = ''basic''" by code_simp
  show e: "premium_entry (huge_premium_response :: 'f rjson) ''basic'' = Some (RInt (10 ^ 400))"
    by (simp add: premium_entry_def huge_premium_response_def low)
  have big: "int_too_large (10 ^ 400)" by (simp add: int_too_large_def)
  then show "py_float rt (RInt (10 ^ 400)) = Inl OverflowError" by (simp add: py_float_def)
  have p: "get_collected_info ''u'' ?st ''payload'' = Some (example_payload (JStr []))"
    by (simp add: get_collected_info_def example_store_def)
  have ne: "example_payload (JStr []) \<noteq> []" by (simp add: example_payload_def)
  have plan: "py_get (case map_of (example_payload (JStr [])) ''travel'' of
                            None \<Rightarrow> JDict [] | Some t \<Rightarrow> t) ''plan'' (JStr ''basic'')
               = Inr (JStr ''basic'')"
    by (simp add: example_payload_def)
  have r: "example_api (huge_premium_response :: 'f rjson) (example_payload (JStr [])) =
      RDict [(''success'', RStr ''true''),
            (''data'', RDict [(''premiums'', RDict [(''basic'',
               RDict [(''discounted_premium'', RInt (10 ^ 400))])])])]"
    by (simp only: example_api_def huge_premium_response_def)
  have s: "map_of [(''success'', RStr ''true''),
            (''data'', RDict [(''premiums'', RDict [(''basic'',
               RDict [(''discounted_premium'', (RInt (10 ^ 400) :: 'f rjson))])])])] ''success'' = Some (RStr ''ok'')
        \<or> map_of [(''success'', RStr ''true''),
            (''data'', RDict [(''premiums'', RDict [(''basic'',
               RDict [(''discounted_premium'', (RInt (10 ^ 400) :: 'f rjson))])])])] ''success'' = Some (RStr ''true'')"
    by simp
  have e': "premium_entry (example_api (huge_premium_response :: 'f rjson) (example_payload (JStr []))) ''basic''
      = Some (RInt (10 ^ 400))"
    using e by (simp only: example_api_def)
  show "run_quote_generation rt (example_api huge_premium_response) ''u'' ?st =
       (set_stage ''u'' ''initial'' ?st,
        ''I'm sorry, I ran into an error while generating your quote.'')"
    by (rule quote_overflow[where api = "example_api huge_premium_response", OF p ne r s plan e' big])
qed

end
